theory Spec2Isabelle
  imports Main
begin

section \<open>JavaScript values used by the cloud services\<close>

text \<open>
  Texts are lists of code units. A \<open>char\<close> stands for one UTF-16 code unit below 256, so
  of the four ECMAScript line terminators only LF and CR can occur (U+2028 and U+2029
  lie outside the modelled range).
\<close>

definition LineTerminator :: "char \<Rightarrow> bool" where
  "LineTerminator c = (c = CHR 0x0A \<or> c = CHR 0x0D)"

text \<open>
  An \<open>Error\<close> object with the properties the services attach to it after construction
  (\<open>err.stderr = ...\<close>, \<open>err.teamNames = ...\<close>, \<open>err.buildId = ...\<close>). A property that
  was never assigned is \<open>None\<close>.
\<close>

record js_error =
  message :: string
  stderr_of :: "string option"
  stdout_of :: "string option"
  teamNames :: "string list option"
  packagePaths_of :: "string list option"
  buildId :: "string option"
  cloudOperationId :: "string option"

definition Error :: "string \<Rightarrow> js_error" where
  "Error msg = \<lparr>message = msg, stderr_of = None, stdout_of = None, teamNames = None,
     packagePaths_of = None, buildId = None, cloudOperationId = None\<rparr>"

text \<open>The state of a promise when the observation ends.\<close>

datatype 'a promise = Resolved 'a | Rejected js_error | Pending

text \<open>\<open>Array.prototype.join\<close>.\<close>

fun join :: "string \<Rightarrow> string list \<Rightarrow> string" where
  "join sep [] = []"
| "join sep [x] = x"
| "join sep (x # y # ys) = x @ sep @ join sep (y # ys)"

text \<open>
  \<open>_.includes(text, target)\<close> on a string: \<open>target\<close> occurs in \<open>text\<close> at some index.
\<close>

fun starts_with :: "string \<Rightarrow> string \<Rightarrow> bool" where
  "starts_with s [] = True"
| "starts_with [] (p # ps) = False"
| "starts_with (c # s) (p # ps) = (c = p \<and> starts_with s ps)"

fun js_includes :: "string \<Rightarrow> string \<Rightarrow> bool" where
  "js_includes [] target = starts_with [] target"
| "js_includes (c # s) target = (starts_with (c # s) target \<or> js_includes s target)"

text \<open>
  \<open>_.uniq(array)\<close>: lodash walks the array from the left and keeps a value when it is not
  yet among the values kept (\<open>baseUniq\<close>), so the first occurrence of each value survives,
  in the order of the array.
\<close>

fun baseUniq :: "'a list \<Rightarrow> 'a list \<Rightarrow> 'a list" where
  "baseUniq [] result = result"
| "baseUniq (x # xs) result =
     (if x \<in> set result then baseUniq xs result else baseUniq xs (result @ [x]))"

definition uniq :: "'a list \<Rightarrow> 'a list" where
  "uniq array = baseUniq array []"

section \<open>Regular expressions of the publish service\<close>

text \<open>
  The three patterns of \<open>CloudPublishService\<close> are sequences of single-character atoms,
  each taken once or under a greedy quantifier, with one capture group:
  \<^verbatim>\<open>
  ITMS_ERROR_REGEX    = /\[Transporter Error Output\]:.*/g
  GENERAL_ERROR_REGEX = /\[!\].*/g
  IOS_TEAMS_REGEX     = /\d+\) "(.*)" \(.*\)/g
  \<close>
  \<open>.\<close> matches every code unit but a line terminator; \<open>\d\<close> matches \<open>0\<close> to \<open>9\<close>.
\<close>

datatype atom = Lit char | AnyChar | Digit

datatype item = One atom | Star atom | Plus atom | GroupOpen | GroupClose

type_synonym regex = "item list"

fun atom_ok :: "atom \<Rightarrow> char \<Rightarrow> bool" where
  "atom_ok (Lit a) c = (c = a)"
| "atom_ok AnyChar c = (\<not> LineTerminator c)"
| "atom_ok Digit c = (c \<in> set ''0123456789'')"

text \<open>
  The state of one match attempt: the text matched so far, the text of capture group 1
  (\<open>None\<close> while the group has not been entered) and whether the group is open.
\<close>

record mstate =
  matched :: string
  group1 :: "string option"
  in_group :: bool

definition mstart :: mstate where
  "mstart = \<lparr>matched = [], group1 = None, in_group = False\<rparr>"

definition consume :: "char \<Rightarrow> mstate \<Rightarrow> mstate" where
  "consume c st = st\<lparr>matched := matched st @ [c],
     group1 := (if in_group st then map_option (\<lambda>g. g @ [c]) (group1 st) else group1 st)\<rparr>"

text \<open>
  The backtracking matcher at a fixed start index. A greedy quantifier first tries one
  more repetition and falls back to the rest of the pattern when that fails, which is
  the order in which ECMAScript explores the alternatives; the first success is the match.
  The result is the final state and the text after the match.
\<close>

fun bt :: "regex \<Rightarrow> string \<Rightarrow> mstate \<Rightarrow> (mstate \<times> string) option" where
  "bt [] s st = Some (st, s)"
| "bt (One a # r) [] st = None"
| "bt (One a # r) (c # s) st = (if atom_ok a c then bt r s (consume c st) else None)"
| "bt (Star a # r) [] st = bt r [] st"
| "bt (Star a # r) (c # s) st =
     (if atom_ok a c
      then (case bt (Star a # r) s (consume c st) of
              Some res \<Rightarrow> Some res
            | None \<Rightarrow> bt r (c # s) st)
      else bt r (c # s) st)"
| "bt (Plus a # r) [] st = None"
| "bt (Plus a # r) (c # s) st =
     (if atom_ok a c then bt (Star a # r) s (consume c st) else None)"
| "bt (GroupOpen # r) s st = bt r s (st\<lparr>group1 := Some [], in_group := True\<rparr>)"
| "bt (GroupClose # r) s st = bt r s (st\<lparr>in_group := False\<rparr>)"

text \<open>
  A global pattern run over a text, as \<open>String.prototype.match\<close> and a
  \<open>while (m = regex.exec(text))\<close> loop do: the match is tried at every index from
  \<open>lastIndex\<close> on, and after a match \<open>lastIndex\<close> is the index after it. \<open>skip\<close> counts
  the indices still covered by the last match. (After an empty match \<open>match\<close> moves on by
  one index and an \<open>exec\<close> loop does not; the patterns of this service have no empty
  match, see \<open>bt_nonempty\<close> below.)
\<close>

fun scan :: "regex \<Rightarrow> string \<Rightarrow> nat \<Rightarrow> mstate list" where
  "scan r [] skip = (if skip = 0 then (case bt r [] mstart of Some (st, rest) \<Rightarrow> [st] | None \<Rightarrow> []) else [])"
| "scan r (c # s) skip =
     (if skip = 0
      then (case bt r (c # s) mstart of
              Some (st, rest) \<Rightarrow> st # scan r s (length (matched st) - 1)
            | None \<Rightarrow> scan r s 0)
      else scan r s (skip - 1))"

text \<open>\<open>text.match(regex)\<close> for a global \<open>regex\<close>; \<open>null\<close> (no match) is the empty list,
  which is what \<open>_.uniq\<close> makes of it.\<close>

definition match_all :: "regex \<Rightarrow> string \<Rightarrow> string list" where
  "match_all r s = map matched (scan r s 0)"

text \<open>The values \<open>matches[1]\<close> of a \<open>while (matches = regex.exec(text))\<close> loop.\<close>

definition exec_groups :: "regex \<Rightarrow> string \<Rightarrow> string list" where
  "exec_groups r s = map (\<lambda>st. case group1 st of Some g \<Rightarrow> g | None \<Rightarrow> []) (scan r s 0)"

definition literal :: "string \<Rightarrow> regex" where
  "literal s = map (\<lambda>c. One (Lit c)) s"

definition ITMS_ERROR_REGEX :: regex where
  "ITMS_ERROR_REGEX = literal ''[Transporter Error Output]:'' @ [Star AnyChar]"

definition FASTLANE_MULTIPLE_TEAMS_FOUND_ERROR :: string where
  "FASTLANE_MULTIPLE_TEAMS_FOUND_ERROR = ''Multiple iTunes Connect Teams found''"

definition GENERAL_ERROR_REGEX :: regex where
  "GENERAL_ERROR_REGEX = literal ''[!]'' @ [Star AnyChar]"

definition IOS_TEAMS_REGEX :: regex where
  "IOS_TEAMS_REGEX = [Plus Digit] @ literal '') \"'' @ [GroupOpen, Star AnyChar, GroupClose]
     @ literal ''\" ('' @ [Star AnyChar] @ literal '')''"

abbreviation (input) nonLT :: "char \<Rightarrow> bool" where
  "nonLT c \<equiv> \<not> LineTerminator c"

text \<open>
  The lines of a text, split at the line terminators, and the part of a line from the
  first occurrence of a marker on, if the marker occurs in it. They describe what the
  two marker patterns extract.
\<close>

fun js_lines :: "string \<Rightarrow> string list" where
  "js_lines [] = [[]]"
| "js_lines (c # s) =
     (if LineTerminator c then [] # js_lines s
      else (case js_lines s of [] \<Rightarrow> [[c]] | l # ls \<Rightarrow> (c # l) # ls))"

fun from_marker :: "string \<Rightarrow> string \<Rightarrow> string option" where
  "from_marker marker [] = (if marker = [] then Some [] else None)"
| "from_marker marker (c # s) =
     (if starts_with (c # s) marker then Some (c # s) else from_marker marker s)"

text \<open>
  A line of the team list that fastlane prints, \<open>1) "Telerik A D" (944446)\<close>: the number,
  the name and the identifier of the team.
\<close>

definition team_line :: "string \<Rightarrow> string \<Rightarrow> string \<Rightarrow> string" where
  "team_line n name tid = n @ '') \"'' @ name @ ''\" ('' @ tid @ '')''"

text \<open>
  A text as fastlane prints it when several teams are found: lines of the team list
  (with a number of at least one digit, and a name and an identifier without quotation
  mark), and other lines in which no \<open>)\<close> occurs. No line contains a line terminator.
\<close>

datatype stdout_line = TeamLine string string string | OtherLine string

fun render_line :: "stdout_line \<Rightarrow> string" where
  "render_line (TeamLine n name tid) = team_line n name tid"
| "render_line (OtherLine l) = l"

fun well_formed_line :: "stdout_line \<Rightarrow> bool" where
  "well_formed_line (TeamLine n name tid) =
     (n \<noteq> [] \<and> (\<forall>c\<in>set n. c \<in> set ''0123456789'') \<and>
      (\<forall>c\<in>set name. \<not> LineTerminator c \<and> c \<noteq> CHR 0x22) \<and>
      (\<forall>c\<in>set tid. \<not> LineTerminator c \<and> c \<noteq> CHR 0x22))"
| "well_formed_line (OtherLine l) = (\<forall>c\<in>set l. \<not> LineTerminator c \<and> c \<noteq> CHR '')'')"

fun team_names_of :: "stdout_line list \<Rightarrow> string list" where
  "team_names_of [] = []"
| "team_names_of (TeamLine n name tid # ls) = name # team_names_of ls"
| "team_names_of (OtherLine l # ls) = team_names_of ls"

text \<open>What follows a line: nothing, or a line terminator.\<close>

definition line_end :: "string \<Rightarrow> bool" where
  "line_end rest = (rest = [] \<or> LineTerminator (hd rest))"

text \<open>The atoms of a pattern.\<close>

fun item_atoms :: "item \<Rightarrow> atom list" where
  "item_atoms (One a) = [a]"
| "item_atoms (Star a) = [a]"
| "item_atoms (Plus a) = [a]"
| "item_atoms GroupOpen = []"
| "item_atoms GroupClose = []"

section \<open>The environment of a service\<close>

text \<open>The result object of a server operation (\<open>IServerResult\<close>, \<open>IBuildServerResult\<close>,
  \<open>IServerItem\<close>) and the answer of the backend to a request (\<open>IServerResponse\<close>).\<close>

record server_result =
  errors :: string
  code :: int
  stdout :: string
  stderr :: string

record server_item =
  disposition :: string
  filename :: string
  fullPath :: string
  item_platform :: string
  extension :: string

record build_server_result = server_result +
  buildItems :: "server_item list"

record server_response =
  statusUrl :: string
  resultUrl :: string
  outputUrl :: string

record output_directory_options =
  opt_projectDir :: string
  opt_platform :: string
  emulator :: bool

text \<open>
  What a service does to the outside, in the order in which it does it. Timers are part
  of it: \<open>RetryTimeout ms\<close> is the timer promise-retry sets before the next attempt,
  \<open>SetInterval ms\<close> starts the repeating timer, \<open>Tick\<close> is one run of its callback (one
  period after the previous one), \<open>ClearInterval\<close> cancels it. \<open>Unhandled\<close> is an error
  thrown inside the asynchronous timer callback, which nothing catches.
\<close>

datatype event =
    Fetch string
  | RetryTimeout nat
  | SetInterval nat
  | Tick
  | GetServerLogs string string nat
  | Unhandled js_error
  | ClearInterval
  | EnsureDirectoryExists string
  | CreateWriteStream string
  | Download string string
  | UploadToS3 string
  | ServerRequest

text \<open>
  The answers of the outside world. The status object is read many times from the same
  location, so its answer depends on when it is read: on the attempt number during the
  first phase, on the number of the timer tick afterwards. The two calls a run of the
  polling timer awaits take time: \<open>logs_ms logsUrl tick\<close> is the time in milliseconds
  that the call of \<open>getServerLogs\<close> made in tick \<open>tick\<close> takes, \<open>read_ms url tick\<close> the time
  that the read of the status object made in that tick takes.
\<close>

record world =
  status_initial :: "string \<Rightarrow> nat \<Rightarrow> js_error + string"
  status_polled :: "string \<Rightarrow> nat \<Rightarrow> js_error + string"
  transformed_at :: "string \<Rightarrow> nat \<Rightarrow> js_error + build_server_result"
  result_at :: "string \<Rightarrow> js_error + server_result"
  httpDownload :: "string \<Rightarrow> string \<Rightarrow> js_error option"
  fs_exists :: "string \<Rightarrow> bool"
  uploadToS3 :: "string \<Rightarrow> js_error + string"
  uuid_v4 :: string
  logs_ms :: "string \<Rightarrow> nat \<Rightarrow> nat"
  read_ms :: "string \<Rightarrow> nat \<Rightarrow> nat"

text \<open>
  Library functions of the platform that the services call: \<open>os.EOL\<close>, \<open>path.join\<close> and
  \<open>String.prototype.toLowerCase\<close>.
\<close>

record runtime =
  EOL :: string
  path_join :: "string list \<Rightarrow> string"
  toLowerCase :: "string \<Rightarrow> string"

text \<open>
  The abstract members of \<open>CloudService\<close>, which each service supplies.
  \<open>getServerLogs logsUrl buildId tick cursor\<close> is the call made in the timer tick \<open>tick\<close>
  with \<open>outputCursorPosition = cursor\<close>; it returns the error it throws, if any, and
  \<open>outputCursorPosition\<close> as it leaves it.
\<close>

record service =
  failedToStartError :: string
  failedError :: string
  getServerResults :: "build_server_result \<Rightarrow> js_error + server_item list"
  getServerLogs :: "string \<Rightarrow> string \<Rightarrow> nat \<Rightarrow> nat \<Rightarrow> js_error option \<times> nat"
  getServerOperationOutputDirectory :: "output_directory_options \<Rightarrow> string"

section \<open>promise-retry\<close>

text \<open>
  \<open>promiseRetry(fn, options)\<close> of the promise-retry package, over the retry package. The
  options \<open>retries\<close> and \<open>minTimeout\<close> are given by the caller; \<open>factor\<close> keeps its default
  2, \<open>maxTimeout\<close> is infinite and \<open>randomize\<close> is off. \<open>retry.timeouts\<close> computes one
  timeout per retry, \<open>minTimeout * factor ^ i\<close> for \<open>i\<close> from 0 below \<open>retries\<close>. The
  operation is attempted once; each time its promise is rejected through \<open>retry\<close> the next
  timeout is taken off the list and the operation is attempted again when it has
  elapsed; when the list is empty the promise is rejected with the error handed to
  \<open>retry\<close>. Attempts are numbered from 1.
\<close>

record retry_options =
  retries :: nat
  minTimeout :: nat

definition timeouts :: "retry_options \<Rightarrow> nat list" where
  "timeouts opts = map (\<lambda>i. max (minTimeout opts) 1 * 2 ^ i) [0..<retries opts]"

fun retry_attempt :: "(nat \<Rightarrow> (js_error + 'a) \<times> event list) \<Rightarrow> nat \<Rightarrow> nat list
    \<Rightarrow> (js_error + 'a) \<times> event list" where
  "retry_attempt fn number [] = fn number"
| "retry_attempt fn number (t # ts) =
     (case fn number of
        (Inr v, evs) \<Rightarrow> (Inr v, evs)
      | (Inl err, evs) \<Rightarrow>
          (case retry_attempt fn (Suc number) ts of
             (r, evs') \<Rightarrow> (r, evs @ RetryTimeout t # evs')))"

definition promiseRetry :: "(nat \<Rightarrow> (js_error + 'a) \<times> event list) \<Rightarrow> retry_options
    \<Rightarrow> (js_error + 'a) \<times> event list" where
  "promiseRetry fn opts = retry_attempt fn 1 (timeouts opts)"

section \<open>CloudService\<close>

definition OPERATION_STATUS_CHECK_INTERVAL :: nat where
  "OPERATION_STATUS_CHECK_INTERVAL = 1500"

definition OPERATION_STATUS_CHECK_RETRY_COUNT :: nat where
  "OPERATION_STATUS_CHECK_RETRY_COUNT = 8"

definition OPERATION_COMPLETE_STATUS :: string where
  "OPERATION_COMPLETE_STATUS = ''Success''"

definition OPERATION_FAILED_STATUS :: string where
  "OPERATION_FAILED_STATUS = ''Failed''"

definition OPERATION_IN_PROGRESS_STATUS :: string where
  "OPERATION_IN_PROGRESS_STATUS = ''Building''"




subsection \<open>waitForServerOperationToFinish\<close>

text \<open>
  The function handed to \<open>promiseRetry\<close>: one read of the status object. A failed read
  is traced and replaced by \<open>new Error(this.failedToStartError)\<close>, which \<open>.catch(retry)\<close>
  hands to \<open>retry\<close>.
\<close>

definition fetchFirstStatus :: "service \<Rightarrow> world \<Rightarrow> server_response \<Rightarrow> nat
    \<Rightarrow> (js_error + string) \<times> event list" where
  "fetchFirstStatus svc w serverInformation attempt =
     (case status_initial w (statusUrl serverInformation) attempt of
        Inr serverStatus \<Rightarrow> (Inr serverStatus, [Fetch (statusUrl serverInformation)])
      | Inl err \<Rightarrow> (Inl (Error (failedToStartError svc)), [Fetch (statusUrl serverInformation)]))"

text \<open>
  One run of the callback of \<open>setInterval\<close>, in the timer tick \<open>tick\<close>, with the variable
  \<open>serverStatus\<close> and \<open>outputCursorPosition\<close> as they stand. The callback is \<open>async\<close> and
  nothing awaits or catches its promise: when \<open>getServerLogs\<close> or the read of the status
  object throws, the run ends there, the promise of the wait is not settled, the timer
  is not cleared and \<open>serverStatus\<close> keeps its value. \<open>intervalCallback\<close> is a run taken
  on its own, from the tick to the end of its last awaited call.
\<close>

datatype tick_result = Settled "unit promise" | Running string nat

definition intervalCallback :: "service \<Rightarrow> world \<Rightarrow> string \<Rightarrow> server_response \<Rightarrow> nat
    \<Rightarrow> string \<Rightarrow> nat \<Rightarrow> tick_result \<times> event list" where
  "intervalCallback svc w operationId serverInformation tick serverStatus cursor =
     (let logsCall = GetServerLogs (outputUrl serverInformation) operationId cursor;
          logs = getServerLogs svc (outputUrl serverInformation) operationId tick cursor;
          fetchStatus = (\<lambda>cursor'. case status_polled w (statusUrl serverInformation) tick of
              Inr serverStatus' \<Rightarrow> (Running serverStatus' cursor', [Fetch (statusUrl serverInformation)])
            | Inl err \<Rightarrow> (Running serverStatus cursor', [Fetch (statusUrl serverInformation), Unhandled err]))
      in
      if serverStatus = OPERATION_COMPLETE_STATUS then
        (case logs of
           (Some err, cursor') \<Rightarrow> (Running serverStatus cursor', [logsCall, Unhandled err])
         | (None, cursor') \<Rightarrow> (Settled (Resolved ()), [logsCall, ClearInterval]))
      else if serverStatus = OPERATION_FAILED_STATUS then
        (case logs of
           (Some err, cursor') \<Rightarrow> (Running serverStatus cursor', [logsCall, Unhandled err])
         | (None, cursor') \<Rightarrow> (Settled (Rejected (Error (failedError svc))), [logsCall, ClearInterval]))
      else if serverStatus = OPERATION_IN_PROGRESS_STATUS then
        (case logs of
           (Some err, cursor') \<Rightarrow> (Running serverStatus cursor', [logsCall, Unhandled err])
         | (None, cursor') \<Rightarrow>
             (case fetchStatus cursor' of (res, evs) \<Rightarrow> (res, logsCall # evs)))
      else fetchStatus cursor)"

text \<open>
  The time a run takes: the time of the calls it awaits, one after the other. On
  \<open>Success\<close> and \<open>Failed\<close> the run awaits \<open>getServerLogs\<close> only; on \<open>Building\<close> it awaits
  \<open>getServerLogs\<close> and then, unless that call has thrown, the read of the status object;
  on any other status it awaits the read only.
\<close>

definition runTime :: "service \<Rightarrow> world \<Rightarrow> string \<Rightarrow> server_response \<Rightarrow> nat
    \<Rightarrow> string \<Rightarrow> nat \<Rightarrow> nat" where
  "runTime svc w operationId serverInformation tick serverStatus cursor =
     (let logsTime = logs_ms w (outputUrl serverInformation) tick;
          readTime = read_ms w (statusUrl serverInformation) tick
      in
      if serverStatus = OPERATION_COMPLETE_STATUS \<or> serverStatus = OPERATION_FAILED_STATUS
      then logsTime
      else if serverStatus = OPERATION_IN_PROGRESS_STATUS then
        (case getServerLogs svc (outputUrl serverInformation) operationId tick cursor of
           (Some err, cursor') \<Rightarrow> logsTime
         | (None, cursor') \<Rightarrow> logsTime + readTime)
      else readTime)"

text \<open>
  The repeating timer. \<open>setInterval\<close> does not wait for the promise of the callback: the
  timer fires every \<open>OPERATION_STATUS_CHECK_INTERVAL\<close> ms whether the previous run is
  over or not, and a run that takes that long goes on while the next one starts, both
  working on \<open>serverStatus\<close> and \<open>outputCursorPosition\<close>. \<open>poll\<close> follows the timer as
  long as the runs do not overlap: the runs are taken one after the other, and the
  observation ends before the first tick whose run would not be over when the timer
  fires again. \<open>ticks\<close> is the number of timer ticks that are observed at most; the
  result is \<open>Pending\<close> when the promise is not settled at the end of the observation.
\<close>

fun poll :: "service \<Rightarrow> world \<Rightarrow> string \<Rightarrow> server_response \<Rightarrow> nat \<Rightarrow> nat
    \<Rightarrow> string \<Rightarrow> nat \<Rightarrow> unit promise \<times> event list" where
  "poll svc w operationId serverInformation 0 tick serverStatus cursor = (Pending, [])"
| "poll svc w operationId serverInformation (Suc ticks) tick serverStatus cursor =
     (if OPERATION_STATUS_CHECK_INTERVAL
           \<le> runTime svc w operationId serverInformation tick serverStatus cursor
      then (Pending, [])
      else
        (case intervalCallback svc w operationId serverInformation tick serverStatus cursor of
           (Settled p, evs) \<Rightarrow> (p, Tick # evs)
         | (Running serverStatus' cursor', evs) \<Rightarrow>
             (case poll svc w operationId serverInformation ticks (Suc tick) serverStatus' cursor' of
                (p, evs') \<Rightarrow> (p, Tick # evs @ evs'))))"

definition waitForServerOperationToFinish :: "service \<Rightarrow> world \<Rightarrow> nat \<Rightarrow> string
    \<Rightarrow> server_response \<Rightarrow> unit promise \<times> event list" where
  "waitForServerOperationToFinish svc w ticks operationId serverInformation =
     (let promiseRetryOptions = \<lparr>retries = OPERATION_STATUS_CHECK_RETRY_COUNT,
            minTimeout = OPERATION_STATUS_CHECK_INTERVAL\<rparr>
      in case promiseRetry (fetchFirstStatus svc w serverInformation) promiseRetryOptions of
           (Inl err, evs) \<Rightarrow> (Rejected err, evs)
         | (Inr serverStatus, evs) \<Rightarrow>
             (case poll svc w operationId serverInformation ticks 1 serverStatus 0 of
                (p, evs') \<Rightarrow> (p, evs @ SetInterval OPERATION_STATUS_CHECK_INTERVAL # evs')))"

subsection \<open>downloadServerResults\<close>

text \<open>The \<open>for\<close> loop over the filtered items; \<open>targetFileNames\<close> is the list built so far.
  A failed transfer rejects the promise and ends the loop.\<close>

fun downloadEach :: "world \<Rightarrow> runtime \<Rightarrow> string \<Rightarrow> server_item list \<Rightarrow> string list
    \<Rightarrow> (js_error + string list) \<times> event list" where
  "downloadEach w rt destinationDir [] targetFileNames = (Inr targetFileNames, [])"
| "downloadEach w rt destinationDir (serverResultObj # objs) targetFileNames =
     (let targetFileName = path_join rt [destinationDir, filename serverResultObj];
          evs = [CreateWriteStream targetFileName,
                 Download (fullPath serverResultObj) targetFileName]
      in case httpDownload w (fullPath serverResultObj) targetFileName of
           Some err \<Rightarrow> (Inl err, evs)
         | None \<Rightarrow>
             (case downloadEach w rt destinationDir objs (targetFileNames @ [targetFileName]) of
                (r, evs') \<Rightarrow> (r, evs @ evs')))"

definition downloadServerResults :: "service \<Rightarrow> world \<Rightarrow> runtime \<Rightarrow> build_server_result
    \<Rightarrow> output_directory_options \<Rightarrow> (js_error + string list) \<times> event list" where
  "downloadServerResults svc w rt serverResult serverOutputOptions =
     (let destinationDir = getServerOperationOutputDirectory svc serverOutputOptions
      in case getServerResults svc serverResult of
           Inl err \<Rightarrow> (Inl err, [EnsureDirectoryExists destinationDir])
         | Inr serverResultObjs \<Rightarrow>
             (case downloadEach w rt destinationDir serverResultObjs [] of
                (r, evs) \<Rightarrow> (r, EnsureDirectoryExists destinationDir # evs)))"

subsection \<open>getTransformedServerResult\<close>



text \<open>
  The time, in milliseconds after the call, at which each object is read, as the timers
  alone give it: every \<open>RetryTimeout ms\<close> adds \<open>ms\<close>, every \<open>Tick\<close> adds the period of the
  interval timer, and a read takes no time. Two reads are at least as far apart as
  these times say.
\<close>

fun fetchTimes :: "nat \<Rightarrow> nat \<Rightarrow> event list \<Rightarrow> nat list" where
  "fetchTimes period now [] = []"
| "fetchTimes period now (Fetch url # evs) = now # fetchTimes period now evs"
| "fetchTimes period now (RetryTimeout ms # evs) = fetchTimes period (now + ms) evs"
| "fetchTimes period now (SetInterval ms # evs) = fetchTimes ms now evs"
| "fetchTimes period now (Tick # evs) = fetchTimes period (now + period) evs"
| "fetchTimes period now (e # evs) = fetchTimes period now evs"


text \<open>
  Two readings of a sequence of events: the values of \<open>outputCursorPosition\<close> at the calls
  of \<open>getServerLogs\<close>, in order, and whether the repeating timer is running at the end
  (it runs from \<open>SetInterval\<close> to \<open>ClearInterval\<close>).
\<close>

fun logCursors :: "event list \<Rightarrow> nat list" where
  "logCursors [] = []"
| "logCursors (GetServerLogs logsUrl buildId' cursor # evs) = cursor # logCursors evs"
| "logCursors (e # evs) = logCursors evs"

fun timerActive :: "bool \<Rightarrow> event list \<Rightarrow> bool" where
  "timerActive active [] = active"
| "timerActive active (SetInterval ms # evs) = timerActive True evs"
| "timerActive active (ClearInterval # evs) = timerActive False evs"
| "timerActive active (e # evs) = timerActive active evs"

fun fetches :: "event list \<Rightarrow> string list" where
  "fetches [] = []"
| "fetches (Fetch url # evs) = url # fetches evs"
| "fetches (e # evs) = fetches evs"

text \<open>
  The values of \<open>outputCursorPosition\<close> that \<open>n\<close> calls of \<open>getServerLogs\<close> in successive
  timer ticks see, when the first of them, in tick \<open>tick\<close>, sees \<open>cursor\<close> and nothing but
  the calls themselves changes the cursor: \<open>leaves tick cursor\<close> is the cursor that the
  call of tick \<open>tick\<close> leaves when it has seen \<open>cursor\<close>.
\<close>

fun cursorChain :: "(nat \<Rightarrow> nat \<Rightarrow> nat) \<Rightarrow> nat \<Rightarrow> nat \<Rightarrow> nat \<Rightarrow> nat list" where
  "cursorChain leaves tick cursor 0 = []"
| "cursorChain leaves tick cursor (Suc n) =
     cursor # cursorChain leaves (Suc tick) (leaves tick cursor) n"

section \<open>CloudPublishService\<close>

text \<open>
  \<^verbatim>\<open>
  private getFormattedError(message: string, regex: RegExp) {
      return _.uniq(message.match(regex)).join(EOL);
  }
  \<close>
\<close>

definition getFormattedError :: "runtime \<Rightarrow> string \<Rightarrow> regex \<Rightarrow> string" where
  "getFormattedError rt msg regex = join (EOL rt) (uniq (match_all regex msg))"

text \<open>
  The sentence of the specification about \<open>getFormattedError\<close>, word for word: the lines
  of the text that match the pattern, deduplicated in the order of their first
  occurrence, joined with a newline.
\<close>

definition spec_getFormattedError :: "runtime \<Rightarrow> string \<Rightarrow> regex \<Rightarrow> string" where
  "spec_getFormattedError rt msg regex =
     join (EOL rt) (uniq (filter (\<lambda>line. match_all regex line \<noteq> []) (js_lines msg)))"

text \<open>The members of \<open>CloudService\<close> as the publish service supplies them.\<close>

definition cloudPublishService :: service where
  "cloudPublishService = \<lparr>
     failedToStartError = ''Failed to start publishing.'',
     failedError = ''Publishing failed.'',
     getServerResults = (\<lambda>codesignResult. Inr []),
     getServerLogs = (\<lambda>logsUrl buildId tick cursor. (None, cursor)),
     getServerOperationOutputDirectory = (\<lambda>options. [])\<rparr>"

datatype credentials = AppleCredentials string string | AuthJson string

record publish_request_data =
  appIdentifier :: string
  req_credentials :: "credentials option"
  packagePaths :: "string list"
  platform :: string
  req_teamId :: "string option"
  req_track :: "string option"

text \<open>
  The classifier of \<open>publishToItunesConnect\<close>. It closes over \<open>publishRequestData\<close>, the
  object whose \<open>packagePaths\<close> \<open>publishCore\<close> has replaced by then; the object is an argument
  here.
\<close>

definition itunesGetError :: "runtime \<Rightarrow> publish_request_data \<Rightarrow> server_result \<Rightarrow> js_error" where
  "itunesGetError rt publishRequestData publishResult =
     (let itmsMessage = getFormattedError rt (stdout publishResult) ITMS_ERROR_REGEX;
          generalMessage = getFormattedError rt (stderr publishResult) GENERAL_ERROR_REGEX;
          err = Error (errors publishResult @ EOL rt @ itmsMessage @ EOL rt @ generalMessage)
      in if js_includes (stderr publishResult) FASTLANE_MULTIPLE_TEAMS_FOUND_ERROR
         then err\<lparr>teamNames := Some (exec_groups IOS_TEAMS_REGEX (stdout publishResult)),
                  packagePaths_of := Some (packagePaths publishRequestData)\<rparr>
         else err)"

text \<open>The classifier of \<open>publishToGooglePlay\<close>.\<close>

definition googleGetError :: "runtime \<Rightarrow> publish_request_data \<Rightarrow> server_result \<Rightarrow> js_error" where
  "googleGetError rt publishRequestData publishResult =
     (let generalMessage = getFormattedError rt (stderr publishResult) GENERAL_ERROR_REGEX
      in Error (errors publishResult @ EOL rt @ generalMessage))"

text \<open>
  \<open>getPreparePackagePaths\<close>: a package that exists locally is uploaded and replaced by
  what \<open>uploadToS3\<close> returns; an upload that fails rejects the promise.
\<close>

fun getPreparePackagePaths :: "world \<Rightarrow> string list \<Rightarrow> (js_error + string list) \<times> event list" where
  "getPreparePackagePaths w [] = (Inr [], [])"
| "getPreparePackagePaths w (packagePath # rest) =
     (if fs_exists w packagePath
      then (case uploadToS3 w packagePath of
              Inl err \<Rightarrow> (Inl err, [UploadToS3 packagePath])
            | Inr uploaded \<Rightarrow>
                (case getPreparePackagePaths w rest of
                   (Inl err, evs) \<Rightarrow> (Inl err, UploadToS3 packagePath # evs)
                 | (Inr prepared, evs) \<Rightarrow> (Inr (uploaded # prepared), UploadToS3 packagePath # evs)))
      else (case getPreparePackagePaths w rest of
              (Inl err, evs) \<Rightarrow> (Inl err, evs)
            | (Inr prepared, evs) \<Rightarrow> (Inr (packagePath # prepared), evs)))"

text \<open>
  \<open>publishCore\<close>. \<open>publish\<close> is the request to the backend
  (\<open>this.$buildCloudService.publish\<close>); \<open>ticks\<close> is the number of timer ticks observed
  during the wait. \<open>publishResult.code || publishResult.errors\<close> holds for a number other
  than 0 and for a string other than the empty one.
\<close>

definition publishCore :: "world \<Rightarrow> (publish_request_data \<Rightarrow> js_error + server_response)
    \<Rightarrow> nat \<Rightarrow> publish_request_data \<Rightarrow> string list
    \<Rightarrow> (publish_request_data \<Rightarrow> server_result \<Rightarrow> js_error)
    \<Rightarrow> unit promise \<times> event list" where
  "publishCore w publish ticks publishRequestData0 publishDataCore_packagePaths getError =
     (case getPreparePackagePaths w publishDataCore_packagePaths of
        (Inl err, evs) \<Rightarrow> (Rejected err, evs)
      | (Inr prepared, evs) \<Rightarrow>
          (let publishRequestData = publishRequestData0\<lparr>packagePaths := prepared\<rparr>
           in case publish publishRequestData of
                Inl err \<Rightarrow> (Rejected err, evs @ [ServerRequest])
              | Inr response \<Rightarrow>
                  (let buildId = uuid_v4 w
                   in case waitForServerOperationToFinish cloudPublishService w ticks buildId response of
                        (Pending, evs') \<Rightarrow> (Pending, evs @ ServerRequest # evs')
                      | (waited, evs') \<Rightarrow>
                          (case result_at w (resultUrl response) of
                             Inl err \<Rightarrow>
                               (Rejected err, evs @ ServerRequest # evs' @ [Fetch (resultUrl response)])
                           | Inr publishResult \<Rightarrow>
                               (if code publishResult \<noteq> 0 \<or> errors publishResult \<noteq> []
                                then (Rejected ((getError publishRequestData publishResult)
                                         \<lparr>stderr_of := Some (stderr publishResult),
                                          stdout_of := Some (stdout publishResult)\<rparr>),
                                      evs @ ServerRequest # evs' @ [Fetch (resultUrl response)])
                                else (Resolved (),
                                      evs @ ServerRequest # evs' @ [Fetch (resultUrl response)]))))))"

text \<open>
  The data of the two public entry points. A property that is missing and an empty
  string or list are both falsy, and are both the empty value here; \<open>credentials\<close> is an
  object and can be missing as a whole.
\<close>

record itunes_publish_data =
  ios_packagePaths :: "string list"
  ios_projectDir :: string
  ios_credentials :: "(string \<times> string) option"
  ios_teamId :: "string option"

record google_publish_data =
  android_packagePaths :: "string list"
  android_projectDir :: string
  pathToAuthJson :: string
  track :: string

text \<open>
  What the publish service asks of its collaborators: the project identifier of a
  project directory, the platform names, the content of the auth file (as
  \<open>JSON.stringify(this.$fs.readJson(path))\<close> gives it, or the error of a file that is not
  JSON), the default track and the backend. \<open>$errors.failWithoutHelp(message)\<close> throws an
  error with that message.
\<close>

record publish_deps =
  projectId :: "string \<Rightarrow> string"
  platform_iOS :: string
  platform_Android :: string
  readJson :: "string \<Rightarrow> js_error + string"
  DEFAULT_ANDROID_PUBLISH_TRACK :: string
  publish :: "publish_request_data \<Rightarrow> js_error + server_response"

definition validatePublishData :: "string list \<Rightarrow> string \<Rightarrow> js_error option" where
  "validatePublishData pkgPaths projectDir =
     (if pkgPaths = [] then Some (Error ''Cannot upload without packages'')
      else if projectDir = [] then Some (Error ''Cannot perform publish - projectDir is required.'')
      else None)"

definition credentials_missing :: "(string \<times> string) option \<Rightarrow> bool" where
  "credentials_missing c = (case c of None \<Rightarrow> True | Some (username, password) \<Rightarrow> username = [] \<or> password = [])"

definition publishToItunesConnect :: "world \<Rightarrow> runtime \<Rightarrow> publish_deps \<Rightarrow> nat
    \<Rightarrow> itunes_publish_data \<Rightarrow> unit promise \<times> event list" where
  "publishToItunesConnect w rt deps ticks publishData =
     (case validatePublishData (ios_packagePaths publishData) (ios_projectDir publishData) of
        Some err \<Rightarrow> (Rejected err, [])
      | None \<Rightarrow>
          (if credentials_missing (ios_credentials publishData)
           then (Rejected (Error ''Cannot perform publish - credentials are required.''), [])
           else (let appIdentifier = projectId deps (ios_projectDir publishData);
                     publishRequestData = \<lparr>
                       appIdentifier = appIdentifier,
                       req_credentials = map_option (\<lambda>(u, p). AppleCredentials u p) (ios_credentials publishData),
                       packagePaths = ios_packagePaths publishData,
                       platform = platform_iOS deps,
                       req_teamId = ios_teamId publishData,
                       req_track = None\<rparr>
                 in publishCore w (publish deps) ticks publishRequestData
                      (ios_packagePaths publishData) (itunesGetError rt))))"

definition publishToGooglePlay :: "world \<Rightarrow> runtime \<Rightarrow> publish_deps \<Rightarrow> nat
    \<Rightarrow> google_publish_data \<Rightarrow> unit promise \<times> event list" where
  "publishToGooglePlay w rt deps ticks publishData =
     (case validatePublishData (android_packagePaths publishData) (android_projectDir publishData) of
        Some err \<Rightarrow> (Rejected err, [])
      | None \<Rightarrow>
          (if pathToAuthJson publishData = [] \<or> \<not> fs_exists w (pathToAuthJson publishData)
           then (Rejected (Error ''Cannot perform publish - auth json file is not supplied or missing.''), [])
           else (case readJson deps (pathToAuthJson publishData) of
                   Inl ex \<Rightarrow>
                     (Rejected (Error ''Cannot perform publish - auth json file is not in JSON format.''), [])
                 | Inr authJson \<Rightarrow>
                     (let track' = (if track publishData = [] then DEFAULT_ANDROID_PUBLISH_TRACK deps
                                    else track publishData);
                          appIdentifier = projectId deps (android_projectDir publishData)
                      in publishCore w (publish deps) ticks
                           \<lparr>appIdentifier = appIdentifier,
                            req_credentials = Some (AuthJson authJson),
                            packagePaths = android_packagePaths publishData,
                            platform = platform_Android deps,
                            req_teamId = None,
                            req_track = Some track'\<rparr>
                           (android_packagePaths publishData) (googleGetError rt)))))"

section \<open>CloudCodesignService\<close>

text \<open>
  The constants of \<open>lib/constants\<close> that the codesign service reads.
\<close>

record constants =
  DISPOSITIONS_CERTIFICATE :: string
  DISPOSITIONS_PROVISION :: string
  CODESIGN_FILES_DIR_NAME :: string

text \<open>Every array is truthy, the empty one too: \<open>if (!result)\<close> after \<open>_.filter\<close>.\<close>

definition array_truthy :: "'a list \<Rightarrow> bool" where
  "array_truthy xs = True"

definition codesign_getServerResults :: "constants \<Rightarrow> build_server_result
    \<Rightarrow> js_error + server_item list" where
  "codesign_getServerResults cs codesignResult =
     (let result = filter (\<lambda>b. disposition b = DISPOSITIONS_CERTIFICATE cs
                              \<or> disposition b = DISPOSITIONS_PROVISION cs) (buildItems codesignResult)
      in if \<not> array_truthy result
         then Inl (Error (''No item with disposition '' @ DISPOSITIONS_CERTIFICATE cs @ '' or ''
                @ DISPOSITIONS_PROVISION cs @ '' found in the server result items.''))
         else Inr result)"

definition codesign_getServerOperationOutputDirectory :: "runtime \<Rightarrow> constants
    \<Rightarrow> output_directory_options \<Rightarrow> string" where
  "codesign_getServerOperationOutputDirectory rt cs options =
     path_join rt [opt_projectDir options, CODESIGN_FILES_DIR_NAME cs, toLowerCase rt (opt_platform options)]"

definition cloudCodesignService :: "runtime \<Rightarrow> constants \<Rightarrow> service" where
  "cloudCodesignService rt cs = \<lparr>
     failedToStartError = ''Failed to start generation of codesign files.'',
     failedError = ''Generation of codesign files failed.'',
     getServerResults = codesign_getServerResults cs,
     getServerLogs = (\<lambda>logsUrl cloudOperationId tick cursor. (None, cursor)),
     getServerOperationOutputDirectory = codesign_getServerOperationOutputDirectory rt cs\<rparr>"

record codesign_data =
  username :: string
  password :: string
  clean :: "bool option"
  cd_platform :: string
  sharedCloud :: bool
  attachedDevices :: "string list"

record codesign_request_data =
  rq_cloudOperationId :: string
  appId :: string
  appName :: string
  rq_clean :: "bool option"
  rq_username :: string
  rq_password :: string
  rq_sharedCloud :: bool
  devices :: "string list"

record project_data =
  pd_projectDir :: string
  projectName :: string

record codesign_result_data =
  res_cloudOperationId :: string
  res_buildId :: string
  res_stderr :: string
  res_stdout :: string
  outputFilesPaths :: "string list"

text \<open>
  What the codesign service asks of its collaborators and of the base class it was
  written against: the project data, the helpers that name the application, the
  backend, the wait on the operation (which, for this service, resolves with the result
  of the operation) and \<open>getResult\<close>, the result kept for an operation, if any.
\<close>

record codesign_deps =
  getProjectData :: "string \<Rightarrow> project_data"
  sanitizeName :: "string \<Rightarrow> string"
  getProjectId :: "project_data \<Rightarrow> string \<Rightarrow> string"
  serverGenerateCodesignFiles :: "codesign_request_data \<Rightarrow> js_error + server_response"
  waitForResult :: "string \<Rightarrow> server_response \<Rightarrow> build_server_result promise"
  getResult :: "string \<Rightarrow> build_server_result option"

definition validateParameteres :: "codesign_data option \<Rightarrow> string \<Rightarrow> js_error option" where
  "validateParameteres codesignData projectDir =
     (if (case codesignData of None \<Rightarrow> True | Some d \<Rightarrow> username d = [] \<or> password d = [])
      then Some (Error ''Codesign failed. Reason is missing code sign data. Apple Id and Apple Id password are required..'')
      else if projectDir = [] then Some (Error ''Codesign failed. Reason is invalid project path.'')
      else None)"

definition prepareCodesignRequest :: "runtime \<Rightarrow> codesign_deps \<Rightarrow> string \<Rightarrow> codesign_data
    \<Rightarrow> project_data \<Rightarrow> codesign_request_data" where
  "prepareCodesignRequest rt deps cloudOperationId' codesignData projectData =
     (let sanitizedProjectName = sanitizeName deps (projectName projectData)
      in \<lparr>rq_cloudOperationId = cloudOperationId',
          appId = getProjectId deps projectData (toLowerCase rt (cd_platform codesignData)),
          appName = sanitizedProjectName,
          rq_clean = clean codesignData,
          rq_username = username codesignData,
          rq_password = password codesignData,
          rq_sharedCloud = sharedCloud codesignData,
          devices = attachedDevices codesignData\<rparr>)"

text \<open>The part of \<open>executeGeneration\<close> after the wait, on the result of the operation.\<close>

definition finishGeneration :: "world \<Rightarrow> runtime \<Rightarrow> constants \<Rightarrow> codesign_data \<Rightarrow> project_data
    \<Rightarrow> string \<Rightarrow> build_server_result \<Rightarrow> codesign_result_data promise" where
  "finishGeneration w rt cs codesignData projectData cloudOperationId' codesignResult =
     (if buildItems codesignResult = []
      then (let errText = errors codesignResult;
                errText' = (if js_includes errText ''403 Forbidden''
                            then ''The Code Signing Assistance service is temporary unavailable. Please try again later.''
                            else errText)
            in Rejected ((Error (''Codesign failed. Reason is: '' @ errText' @ ''.''))
                 \<lparr>stderr_of := Some (stderr codesignResult)\<rparr>))
      else (case fst (downloadServerResults (cloudCodesignService rt cs) w rt codesignResult
                  \<lparr>opt_projectDir = pd_projectDir projectData,
                   opt_platform = cd_platform codesignData,
                   emulator = False\<rparr>) of
              Inl err \<Rightarrow> Rejected err
            | Inr localCodesignResults \<Rightarrow>
                Resolved \<lparr>res_cloudOperationId = cloudOperationId',
                          res_buildId = cloudOperationId',
                          res_stderr = stderr codesignResult,
                          res_stdout = stdout codesignResult,
                          outputFilesPaths = localCodesignResults\<rparr>))"

definition executeGeneration :: "world \<Rightarrow> runtime \<Rightarrow> constants \<Rightarrow> codesign_deps
    \<Rightarrow> codesign_data \<Rightarrow> string \<Rightarrow> string \<Rightarrow> codesign_result_data promise" where
  "executeGeneration w rt cs deps codesignData projectDir cloudOperationId' =
     (let projectData = getProjectData deps projectDir;
          codesignRequest = prepareCodesignRequest rt deps cloudOperationId' codesignData projectData
      in case serverGenerateCodesignFiles deps codesignRequest of
           Inl err \<Rightarrow> Rejected err
         | Inr codesignResponse \<Rightarrow>
             (case waitForResult deps cloudOperationId' codesignResponse of
                Pending \<Rightarrow> Pending
              | Resolved codesignResult \<Rightarrow>
                  finishGeneration w rt cs codesignData projectData cloudOperationId' codesignResult
              | Rejected ex \<Rightarrow>
                  (case getResult deps cloudOperationId' of
                     None \<Rightarrow> Rejected ex
                   | Some codesignResult \<Rightarrow>
                       finishGeneration w rt cs codesignData projectData cloudOperationId' codesignResult)))"

text \<open>
  \<open>generateCodesignFiles\<close>. The validation is outside the \<open>try\<close> and before the identifier
  is generated. A missing \<open>codesignData\<close> does not pass the validation; past it, the
  assignment to \<open>codesignData.clean\<close> would throw a \<open>TypeError\<close>, outside the \<open>try\<close> as well.
\<close>

definition generateCodesignFiles :: "world \<Rightarrow> runtime \<Rightarrow> constants \<Rightarrow> codesign_deps
    \<Rightarrow> codesign_data option \<Rightarrow> string \<Rightarrow> codesign_result_data promise" where
  "generateCodesignFiles w rt cs deps codesignData projectDir =
     (case validateParameteres codesignData projectDir of
        Some err \<Rightarrow> Rejected err
      | None \<Rightarrow>
          (case codesignData of
             None \<Rightarrow> Rejected (Error ''TypeError'')
           | Some d \<Rightarrow>
               (let codesignData' = d\<lparr>clean := (case clean d of None \<Rightarrow> Some True | Some c \<Rightarrow> Some c)\<rparr>;
                    cloudOperationId' = uuid_v4 w
                in case executeGeneration w rt cs deps codesignData' projectDir cloudOperationId' of
                     Rejected err \<Rightarrow>
                       Rejected (err\<lparr>buildId := Some cloudOperationId',
                                     cloudOperationId := Some cloudOperationId'\<rparr>)
                   | other \<Rightarrow> other)))"

section \<open>Example inputs\<close>

text \<open>
  Concrete inputs on which the theorems below are instantiated: the three locations of
  an operation, a backend whose objects are never there (a call of \<open>getServerLogs\<close>
  takes 100 ms there and a read of the status object 200 ms), a result object and two
  items.
\<close>

definition example_response :: server_response where
  "example_response = \<lparr>statusUrl = ''s3://status'', resultUrl = ''s3://result'',
     outputUrl = ''s3://output''\<rparr>"

definition unavailable :: world where
  "unavailable = \<lparr>
     status_initial = (\<lambda>url attempt. Inl (Error ''Not Found'')),
     status_polled = (\<lambda>url tick. Inl (Error ''Not Found'')),
     transformed_at = (\<lambda>url tick. Inl (Error ''Not Found'')),
     result_at = (\<lambda>url. Inl (Error ''Not Found'')),
     httpDownload = (\<lambda>url target. None),
     fs_exists = (\<lambda>path. False),
     uploadToS3 = (\<lambda>path. Inr (''s3://uploads/'' @ path)),
     uuid_v4 = ''0b1d'',
     logs_ms = (\<lambda>logsUrl tick. 100),
     read_ms = (\<lambda>url tick. 200)\<rparr>"

definition example_item :: "string \<Rightarrow> string \<Rightarrow> server_item" where
  "example_item d f = \<lparr>disposition = d, filename = f, fullPath = ''s3://items/'' @ f,
     item_platform = ''ios'', extension = ''bin''\<rparr>"

definition example_build_result :: build_server_result where
  "example_build_result = \<lparr>errors = [], code = 0, stdout = ''done'', stderr = [],
     buildItems = [example_item ''Certificate'' ''dev.p12'',
                   example_item ''BuildResult'' ''app.ipa'',
                   example_item ''Provision'' ''dev.mobileprovision'']\<rparr>"

text \<open>
  A backend whose status object is there from the first read on and shows the statuses
  of \<open>seq\<close> one after the other: \<open>seq ! 0\<close> to the reads of the first phase, \<open>seq ! i\<close>
  to the read of tick \<open>i\<close>.
\<close>

definition scripted :: "string list \<Rightarrow> world" where
  "scripted seq = unavailable\<lparr>
     status_initial := (\<lambda>url attempt. case seq of [] \<Rightarrow> Inl (Error ''Not Found'') | s # rest \<Rightarrow> Inr s),
     status_polled := (\<lambda>url tick. if tick < length seq then Inr (seq ! tick)
                                    else Inl (Error ''Not Found''))\<rparr>"

text \<open>
  A backend whose status object shows \<open>Building\<close> to the reads of the first phase, is
  not there for the read of tick 1 and shows \<open>Success\<close> to the read of tick 2.
\<close>

definition flaky :: world where
  "flaky = unavailable\<lparr>
     status_initial := (\<lambda>url attempt. Inr ''Building''),
     status_polled := (\<lambda>url tick. if tick = 2 then Inr ''Success''
                                    else Inl (Error ''Not Found''))\<rparr>"

text \<open>A service whose \<open>getServerLogs\<close> throws, and one whose \<open>getServerLogs\<close> moves the
  cursor on by 10 at every call.\<close>

definition throwing_logs :: service where
  "throwing_logs = cloudPublishService\<lparr>getServerLogs :=
     (\<lambda>logsUrl buildId tick cursor. (Some (Error ''logs are not there''), cursor))\<rparr>"

definition advancing_logs :: service where
  "advancing_logs = cloudPublishService\<lparr>getServerLogs :=
     (\<lambda>logsUrl buildId tick cursor. (None, cursor + 10))\<rparr>"

text \<open>
  A platform (\<open>/\<close> joins the segments of a path, lower case is left as it is, a line
  ends with LF), the constants of the codesign service, and the collaborators of the
  publish service: the backend accepts every request and answers with
  \<open>example_response\<close>.
\<close>

definition example_runtime :: runtime where
  "example_runtime = \<lparr>EOL = [CHR 0x0A], path_join = join ''/'', toLowerCase = (\<lambda>s. s)\<rparr>"

definition example_constants :: constants where
  "example_constants = \<lparr>DISPOSITIONS_CERTIFICATE = ''Certificate'',
     DISPOSITIONS_PROVISION = ''Provision'', CODESIGN_FILES_DIR_NAME = ''codesign_files''\<rparr>"

definition example_publish_deps :: publish_deps where
  "example_publish_deps = \<lparr>
     projectId = (\<lambda>projectDir. ''org.nativescript.app''),
     platform_iOS = ''iOS'',
     platform_Android = ''Android'',
     readJson = (\<lambda>path. Inr ''{}''),
     DEFAULT_ANDROID_PUBLISH_TRACK = ''beta'',
     publish = (\<lambda>request. Inr example_response)\<rparr>"

definition example_request :: publish_request_data where
  "example_request = \<lparr>appIdentifier = ''org.nativescript.app'', req_credentials = None,
     packagePaths = [''app.ipa''], platform = ''iOS'', req_teamId = None, req_track = None\<rparr>"

text \<open>A backend that reports \<open>Success\<close> at once and holds the result object \<open>r\<close>; one
  whose status object is never there and that holds \<open>r\<close> all the same.\<close>

definition finished_with :: "server_result \<Rightarrow> world" where
  "finished_with r = (scripted [''Success''])\<lparr>result_at := (\<lambda>url. Inr r)\<rparr>"

definition never_started_with :: "server_result \<Rightarrow> world" where
  "never_started_with r = unavailable\<lparr>result_at := (\<lambda>url. Inr r)\<rparr>"

definition clean_result :: server_result where
  "clean_result = \<lparr>errors = [], code = 0, stdout = ''uploaded'', stderr = []\<rparr>"

definition failed_result :: server_result where
  "failed_result = \<lparr>errors = ''exit 1'', code = 1, stdout = ''uploading'',
     stderr = ''[!] Something failed''\<rparr>"

definition example_google_data :: google_publish_data where
  "example_google_data = \<lparr>android_packagePaths = [''app.apk''], android_projectDir = ''/tmp/app'',
     pathToAuthJson = ''/tmp/auth.json'', track = []\<rparr>"

text \<open>The backend of \<open>finished_with failed_result\<close> on a machine that has the auth file
  and not the package; the output options of a codesign operation; the collaborators of
  the codesign service, with an operation that fails and leaves no result.\<close>

definition google_world :: world where
  "google_world = (finished_with failed_result)\<lparr>fs_exists := (\<lambda>path. path = ''/tmp/auth.json'')\<rparr>"

definition example_options :: output_directory_options where
  "example_options = \<lparr>opt_projectDir = ''/tmp/app'', opt_platform = ''ios'', emulator = False\<rparr>"

definition example_codesign_data :: codesign_data where
  "example_codesign_data = \<lparr>username = ''dev@example.com'', password = ''secret'', clean = None,
     cd_platform = ''ios'', sharedCloud = False, attachedDevices = []\<rparr>"

definition example_codesign_deps :: codesign_deps where
  "example_codesign_deps = \<lparr>
     getProjectData = (\<lambda>projectDir. \<lparr>pd_projectDir = projectDir, projectName = ''app''\<rparr>),
     sanitizeName = (\<lambda>name. name),
     getProjectId = (\<lambda>projectData platform. ''org.nativescript.app''),
     serverGenerateCodesignFiles = (\<lambda>request. Inr example_response),
     waitForResult = (\<lambda>cloudOperationId serverResponse.
        Rejected (Error ''Generation of codesign files failed.'')),
     getResult = (\<lambda>cloudOperationId. None)\<rparr>"

text \<open>The result object of a publish that found two teams.\<close>

definition teams_result :: server_result where
  "teams_result = \<lparr>errors = ''exit 1'', code = 1,
     stdout = ''1) \"Team A\" (111)\<newline>2) \"Team B\" (222)'',
     stderr = ''Multiple iTunes Connect Teams found; unable to choose''\<rparr>"


section \<open>Properties of getTransformedServerResult\<close>












section \<open>Properties of waitForServerOperationToFinish\<close>

lemma logCursors_append: "logCursors (xs @ ys) = logCursors xs @ logCursors ys"
  by (induction xs rule: logCursors.induct) simp_all

lemma timerActive_append: "timerActive a (xs @ ys) = timerActive (timerActive a xs) ys"
  by (induction a xs rule: timerActive.induct) simp_all

lemma fetches_append: "fetches (xs @ ys) = fetches xs @ fetches ys"
  by (induction xs rule: fetches.induct) simp_all

lemma wait_timeouts:
  "timeouts \<lparr>retries = OPERATION_STATUS_CHECK_RETRY_COUNT, minTimeout = OPERATION_STATUS_CHECK_INTERVAL\<rparr>
     = [1500, 3000, 6000, 12000, 24000, 48000, 96000, 192000]"
  by (simp add: timeouts_def OPERATION_STATUS_CHECK_RETRY_COUNT_def
      OPERATION_STATUS_CHECK_INTERVAL_def upt_conv_Cons)

lemma retry_attempt_all_fail:
  "(\<forall>i. n \<le> i \<and> i \<le> n + length ts \<longrightarrow> (\<exists>e. status_initial w (statusUrl info) i = Inl e)) \<Longrightarrow>
   retry_attempt (fetchFirstStatus svc w info) n ts =
     (Inl (Error (failedToStartError svc)),
      Fetch (statusUrl info) # concat (map (\<lambda>t. [RetryTimeout t, Fetch (statusUrl info)]) ts))"
proof (induction ts arbitrary: n)
  case Nil
  then obtain e where "status_initial w (statusUrl info) n = Inl e" by auto
  then show ?case by (simp add: fetchFirstStatus_def)
next
  case (Cons t ts)
  from Cons.prems obtain e where e: "status_initial w (statusUrl info) n = Inl e" by auto
  have "retry_attempt (fetchFirstStatus svc w info) (Suc n) ts =
     (Inl (Error (failedToStartError svc)),
      Fetch (statusUrl info) # concat (map (\<lambda>t. [RetryTimeout t, Fetch (statusUrl info)]) ts))"
    using Cons.prems by (intro Cons.IH) auto
  moreover from e have "fetchFirstStatus svc w info n =
      (Inl (Error (failedToStartError svc)), [Fetch (statusUrl info)])"
    by (simp add: fetchFirstStatus_def)
  ultimately show ?case by simp
qed

text \<open>The events of the first phase are reads and retry timers only.\<close>

lemma retry_attempt_events:
  "retry_attempt (fetchFirstStatus svc w info) n ts = (r, evs) \<Longrightarrow>
   logCursors evs = [] \<and> timerActive a evs = a"
proof (induction ts arbitrary: n r evs)
  case Nil
  then show ?case by (auto simp: fetchFirstStatus_def split: sum.splits)
next
  case (Cons t ts)
  show ?case
  proof (cases "status_initial w (statusUrl info) n")
    case (Inr st)
    then have "fetchFirstStatus svc w info n = (Inr st, [Fetch (statusUrl info)])"
      by (simp add: fetchFirstStatus_def)
    with Cons.prems show ?thesis by auto
  next
    case (Inl e)
    then have f: "fetchFirstStatus svc w info n =
        (Inl (Error (failedToStartError svc)), [Fetch (statusUrl info)])"
      by (simp add: fetchFirstStatus_def)
    obtain r' evs' where r: "retry_attempt (fetchFirstStatus svc w info) (Suc n) ts = (r', evs')"
      by (cases "retry_attempt (fetchFirstStatus svc w info) (Suc n) ts")
    from Cons.IH[OF r] f r Cons.prems show ?thesis
      by auto
  qed
qed

lemma intervalCallback_cases:
  "intervalCallback svc w opId info t st c = (res, evs) \<Longrightarrow>
   (\<exists>p. res = Settled p \<and> p \<noteq> Pending \<and> timerActive a evs = False) \<or>
   (\<exists>st' c'. res = Running st' c' \<and> timerActive a evs = a)"
  by (auto simp: intervalCallback_def Let_def split: if_splits prod.splits option.splits sum.splits)

lemma poll_timer:
  "poll svc w opId info ticks t st c = (p, evs) \<Longrightarrow>
   timerActive True evs = (p = Pending)"
proof (induction ticks arbitrary: t st c p evs)
  case 0
  then show ?case by simp
next
  case (Suc ticks)
  show ?case
  proof (cases "OPERATION_STATUS_CHECK_INTERVAL \<le> runTime svc w opId info t st c")
    case True
    with Suc.prems show ?thesis by auto
  next
    case False
    obtain res evs1 where cb: "intervalCallback svc w opId info t st c = (res, evs1)"
      by (cases "intervalCallback svc w opId info t st c")
    from intervalCallback_cases[OF cb, of True] show ?thesis
    proof
      assume "\<exists>p. res = Settled p \<and> p \<noteq> Pending \<and> timerActive True evs1 = False"
      with cb False Suc.prems show ?thesis by auto
    next
      assume "\<exists>st' c'. res = Running st' c' \<and> timerActive True evs1 = True"
      then obtain st' c' where r: "res = Running st' c'" "timerActive True evs1 = True" by blast
      obtain p' evs' where pl: "poll svc w opId info ticks (Suc t) st' c' = (p', evs')"
        by (cases "poll svc w opId info ticks (Suc t) st' c'")
      from Suc.IH[OF pl] cb r pl False Suc.prems show ?thesis
        by (auto simp: timerActive_append)
    qed
  qed
qed

lemma wait_timer:
  "timerActive False (snd (waitForServerOperationToFinish svc w ticks opId info))
     = (fst (waitForServerOperationToFinish svc w ticks opId info) = Pending)"
proof -
  let ?opts = "\<lparr>retries = OPERATION_STATUS_CHECK_RETRY_COUNT, minTimeout = OPERATION_STATUS_CHECK_INTERVAL\<rparr>"
  obtain r evs where pr: "promiseRetry (fetchFirstStatus svc w info) ?opts = (r, evs)"
    by (cases "promiseRetry (fetchFirstStatus svc w info) ?opts")
  then have ev: "\<And>a. timerActive a evs = a"
    using retry_attempt_events[of svc w info 1 "timeouts ?opts" r evs] by (simp add: promiseRetry_def)
  show ?thesis
  proof (cases r)
    case (Inl err)
    with pr ev show ?thesis by (simp add: waitForServerOperationToFinish_def)
  next
    case (Inr st)
    obtain p evs' where pl: "poll svc w opId info ticks 1 st 0 = (p, evs')"
      by (cases "poll svc w opId info ticks 1 st 0")
    from poll_timer[OF pl] pr Inr pl ev show ?thesis
      by (simp add: waitForServerOperationToFinish_def timerActive_append)
  qed
qed


lemma runTime_le:
  "runTime svc w opId info t st c \<le> logs_ms w (outputUrl info) t + read_ms w (statusUrl info) t"
  by (auto simp: runTime_def Let_def split: prod.splits option.splits)

lemma run_in_time:
  "logs_ms w (outputUrl info) t + read_ms w (statusUrl info) t < OPERATION_STATUS_CHECK_INTERVAL \<Longrightarrow>
   \<not> OPERATION_STATUS_CHECK_INTERVAL \<le> runTime svc w opId info t st c"
  using runTime_le[of svc w opId info t st c] by simp

lemma cursorChain_length: "length (cursorChain leaves t c n) = n"
  by (induction n arbitrary: t c) simp_all

lemma cursorChain_ge:
  "\<forall>t c. c \<le> leaves t c \<Longrightarrow> x \<in> set (cursorChain leaves t c n) \<Longrightarrow> c \<le> x"
proof (induction n arbitrary: t c)
  case 0
  then show ?case by simp
next
  case (Suc n)
  from Suc.prems(2) have "x = c \<or> x \<in> set (cursorChain leaves (Suc t) (leaves t c) n)" by simp
  then show ?case
  proof
    assume "x = c" then show ?thesis by simp
  next
    assume "x \<in> set (cursorChain leaves (Suc t) (leaves t c) n)"
    from Suc.IH[OF Suc.prems(1) this] have "leaves t c \<le> x" .
    moreover from Suc.prems(1) have "c \<le> leaves t c" by blast
    ultimately show ?thesis by simp
  qed
qed

lemma cursorChain_sorted:
  "\<forall>t c. c \<le> leaves t c \<Longrightarrow> sorted (cursorChain leaves t c n)"
proof (induction n arbitrary: t c)
  case 0
  then show ?case by simp
next
  case (Suc n)
  have "\<forall>x\<in>set (cursorChain leaves (Suc t) (leaves t c) n). c \<le> x"
  proof
    fix x assume "x \<in> set (cursorChain leaves (Suc t) (leaves t c) n)"
    from cursorChain_ge[OF Suc.prems this] have "leaves t c \<le> x" .
    moreover from Suc.prems have "c \<le> leaves t c" by blast
    ultimately show "c \<le> x" by simp
  qed
  with Suc.IH[OF Suc.prems] show ?case by simp
qed

lemma intervalCallback_throw:
  "st = OPERATION_COMPLETE_STATUS \<or> st = OPERATION_FAILED_STATUS \<or> st = OPERATION_IN_PROGRESS_STATUS \<Longrightarrow>
   getServerLogs svc (outputUrl info) opId t c = (Some err, c') \<Longrightarrow>
   intervalCallback svc w opId info t st c =
     (Running st c', [GetServerLogs (outputUrl info) opId c, Unhandled err])"
  by (auto simp: intervalCallback_def Let_def)

lemma intervalCallback_complete:
  "getServerLogs svc (outputUrl info) opId t c = (None, c') \<Longrightarrow>
   intervalCallback svc w opId info t OPERATION_COMPLETE_STATUS c =
     (Settled (Resolved ()), [GetServerLogs (outputUrl info) opId c, ClearInterval])"
  by (simp add: intervalCallback_def Let_def)

lemma intervalCallback_failed:
  "getServerLogs svc (outputUrl info) opId t c = (None, c') \<Longrightarrow>
   intervalCallback svc w opId info t OPERATION_FAILED_STATUS c =
     (Settled (Rejected (Error (failedError svc))), [GetServerLogs (outputUrl info) opId c, ClearInterval])"
  by (simp add: intervalCallback_def Let_def OPERATION_FAILED_STATUS_def OPERATION_COMPLETE_STATUS_def)

lemma intervalCallback_read_fails:
  "getServerLogs svc (outputUrl info) opId t c = (None, c') \<Longrightarrow>
   status_polled w (statusUrl info) t = Inl err \<Longrightarrow>
   intervalCallback svc w opId info t OPERATION_IN_PROGRESS_STATUS c =
     (Running OPERATION_IN_PROGRESS_STATUS c',
      [GetServerLogs (outputUrl info) opId c, Fetch (statusUrl info), Unhandled err])"
  by (simp add: intervalCallback_def Let_def OPERATION_FAILED_STATUS_def OPERATION_COMPLETE_STATUS_def
      OPERATION_IN_PROGRESS_STATUS_def)

lemma intervalCallback_in_progress:
  "getServerLogs svc (outputUrl info) opId t c = (None, c') \<Longrightarrow>
   status_polled w (statusUrl info) t = Inr st' \<Longrightarrow>
   intervalCallback svc w opId info t OPERATION_IN_PROGRESS_STATUS c =
     (Running st' c', [GetServerLogs (outputUrl info) opId c, Fetch (statusUrl info)])"
  by (simp add: intervalCallback_def Let_def OPERATION_FAILED_STATUS_def OPERATION_COMPLETE_STATUS_def
      OPERATION_IN_PROGRESS_STATUS_def)


lemma poll_sequence:
  assumes ok: "\<forall>t c. fst (getServerLogs svc (outputUrl info) opId t c) = None"
    and tm: "terminal = OPERATION_COMPLETE_STATUS \<or> terminal = OPERATION_FAILED_STATUS"
  shows "(\<forall>i<k. status_polled w (statusUrl info) (t + i) =
            Inr ((replicate k OPERATION_IN_PROGRESS_STATUS @ [terminal]) ! Suc i)) \<Longrightarrow>
         (\<forall>i\<le>k. logs_ms w (outputUrl info) (t + i) + read_ms w (statusUrl info) (t + i)
            < OPERATION_STATUS_CHECK_INTERVAL) \<Longrightarrow>
         k < ticks \<Longrightarrow>
         \<exists>evs. poll svc w opId info ticks t
                 ((replicate k OPERATION_IN_PROGRESS_STATUS @ [terminal]) ! 0) c
                 = ((if terminal = OPERATION_COMPLETE_STATUS then Resolved () else Rejected (Error (failedError svc))), evs) \<and>
               logCursors evs =
                 cursorChain (\<lambda>t c. snd (getServerLogs svc (outputUrl info) opId t c)) t c (Suc k) \<and>
               fetches evs = replicate k (statusUrl info)"
proof (induction k arbitrary: ticks t c)
  case 0
  then obtain n where n: "ticks = Suc n" by (cases ticks) auto
  obtain c' where l: "getServerLogs svc (outputUrl info) opId t c = (None, c')"
    using ok by (metis fst_conv surj_pair)
  from "0.prems"(2) have "logs_ms w (outputUrl info) t + read_ms w (statusUrl info) t
      < OPERATION_STATUS_CHECK_INTERVAL" by simp
  note rt = run_in_time[OF this, of svc opId]
  from tm show ?case
  proof
    assume "terminal = OPERATION_COMPLETE_STATUS"
    with n intervalCallback_complete[OF l] rt show ?thesis by simp
  next
    assume "terminal = OPERATION_FAILED_STATUS"
    with n intervalCallback_failed[OF l] rt show ?thesis
      by (simp add: OPERATION_FAILED_STATUS_def OPERATION_COMPLETE_STATUS_def)
  qed
next
  case (Suc k)
  then obtain n where n: "ticks = Suc n" "k < n" by (cases ticks) auto
  obtain c' where l: "getServerLogs svc (outputUrl info) opId t c = (None, c')"
    using ok by (metis fst_conv surj_pair)
  let ?next = "(replicate k OPERATION_IN_PROGRESS_STATUS @ [terminal]) ! 0"
  from Suc.prems(1) have "status_polled w (statusUrl info) (t + 0) =
      Inr ((replicate (Suc k) OPERATION_IN_PROGRESS_STATUS @ [terminal]) ! Suc 0)"
    by blast
  then have f: "status_polled w (statusUrl info) t = Inr ?next" by simp
  have rest: "\<forall>i<k. status_polled w (statusUrl info) (Suc t + i) =
      Inr ((replicate k OPERATION_IN_PROGRESS_STATUS @ [terminal]) ! Suc i)"
  proof (intro allI impI)
    fix i assume "i < k"
    then have "Suc i < Suc k" by simp
    with Suc.prems(1) have "status_polled w (statusUrl info) (t + Suc i) =
      Inr ((replicate (Suc k) OPERATION_IN_PROGRESS_STATUS @ [terminal]) ! Suc (Suc i))"
      by blast
    then show "status_polled w (statusUrl info) (Suc t + i) =
      Inr ((replicate k OPERATION_IN_PROGRESS_STATUS @ [terminal]) ! Suc i)"
      by simp
  qed
  have time: "\<forall>i\<le>k. logs_ms w (outputUrl info) (Suc t + i) + read_ms w (statusUrl info) (Suc t + i)
      < OPERATION_STATUS_CHECK_INTERVAL"
  proof (intro allI impI)
    fix i assume "i \<le> k"
    then have "Suc i \<le> Suc k" by simp
    with Suc.prems(2) have "logs_ms w (outputUrl info) (t + Suc i) + read_ms w (statusUrl info) (t + Suc i)
      < OPERATION_STATUS_CHECK_INTERVAL"
      by blast
    then show "logs_ms w (outputUrl info) (Suc t + i) + read_ms w (statusUrl info) (Suc t + i)
      < OPERATION_STATUS_CHECK_INTERVAL"
      by simp
  qed
  from Suc.prems(2) have "logs_ms w (outputUrl info) (t + 0) + read_ms w (statusUrl info) (t + 0)
      < OPERATION_STATUS_CHECK_INTERVAL" by blast
  then have "logs_ms w (outputUrl info) t + read_ms w (statusUrl info) t
      < OPERATION_STATUS_CHECK_INTERVAL" by simp
  note rt = run_in_time[OF this, of svc opId]
  from Suc.IH[OF rest time n(2), of c'] obtain evs where
    evs: "poll svc w opId info n (Suc t) ?next c' = ((if terminal = OPERATION_COMPLETE_STATUS then Resolved () else Rejected (Error (failedError svc))), evs)"
      "logCursors evs = cursorChain (\<lambda>t c. snd (getServerLogs svc (outputUrl info) opId t c)) (Suc t) c' (Suc k)"
      "fetches evs = replicate k (statusUrl info)"
    by blast
  have cb: "intervalCallback svc w opId info t
      ((replicate (Suc k) OPERATION_IN_PROGRESS_STATUS @ [terminal]) ! 0) c =
     (Running ?next c', [GetServerLogs (outputUrl info) opId c, Fetch (statusUrl info)])"
    using intervalCallback_in_progress[OF l f] by simp
  have nx: "snd (getServerLogs svc (outputUrl info) opId t c) = c'" using l by simp
  have ch: "cursorChain (\<lambda>t c. snd (getServerLogs svc (outputUrl info) opId t c)) t c (Suc (Suc k)) =
      c # cursorChain (\<lambda>t c. snd (getServerLogs svc (outputUrl info) opId t c)) (Suc t) c' (Suc k)"
    using nx by simp
  from evs rt show ?case
    unfolding n(1) poll.simps cb ch by simp
qed


lemma retry_attempt_first_success:
  "n + d = a \<Longrightarrow> d \<le> length ts \<Longrightarrow> status_initial w (statusUrl info) a = Inr st \<Longrightarrow>
   (\<forall>i. n \<le> i \<and> i < a \<longrightarrow> (\<exists>e. status_initial w (statusUrl info) i = Inl e)) \<Longrightarrow>
   \<exists>evs. retry_attempt (fetchFirstStatus svc w info) n ts = (Inr st, evs)"
proof (induction d arbitrary: n ts)
  case 0
  then have "fetchFirstStatus svc w info n = (Inr st, [Fetch (statusUrl info)])"
    by (simp add: fetchFirstStatus_def)
  then show ?case by (cases ts) simp_all
next
  case (Suc d)
  then obtain t ts' where ts: "ts = t # ts'" by (cases ts) auto
  from Suc.prems obtain e where "status_initial w (statusUrl info) n = Inl e" by auto
  then have f: "fetchFirstStatus svc w info n =
      (Inl (Error (failedToStartError svc)), [Fetch (statusUrl info)])"
    by (simp add: fetchFirstStatus_def)
  have "\<exists>evs. retry_attempt (fetchFirstStatus svc w info) (Suc n) ts' = (Inr st, evs)"
    using Suc.prems ts by (intro Suc.IH) auto
  with f ts show ?case by auto
qed

lemma wait_unavailable:
  assumes "\<forall>i. 1 \<le> i \<and> i \<le> 9 \<longrightarrow> (\<exists>e. status_initial w (statusUrl info) i = Inl e)"
  shows "waitForServerOperationToFinish svc w ticks opId info =
     (Rejected (Error (failedToStartError svc)),
      Fetch (statusUrl info) # concat (map (\<lambda>t. [RetryTimeout t, Fetch (statusUrl info)])
        [1500, 3000, 6000, 12000, 24000, 48000, 96000, 192000]))"
proof -
  have "retry_attempt (fetchFirstStatus svc w info) 1
      [1500, 3000, 6000, 12000, 24000, 48000, 96000, 192000] =
     (Inl (Error (failedToStartError svc)),
      Fetch (statusUrl info) # concat (map (\<lambda>t. [RetryTimeout t, Fetch (statusUrl info)])
        [1500, 3000, 6000, 12000, 24000, 48000, 96000, 192000]))"
    using assms by (intro retry_attempt_all_fail) simp
  then show ?thesis
    unfolding waitForServerOperationToFinish_def Let_def promiseRetry_def wait_timeouts by simp
qed

lemma wait_status_chain:
  assumes tm: "terminal = OPERATION_COMPLETE_STATUS \<or> terminal = OPERATION_FAILED_STATUS"
    and seq: "seq = replicate k OPERATION_IN_PROGRESS_STATUS @ [terminal]"
    and a: "1 \<le> a \<and> a \<le> 9"
    and first: "status_initial w (statusUrl info) a = Inr (seq ! 0)"
    and before: "\<forall>i. 1 \<le> i \<and> i < a \<longrightarrow> (\<exists>e. status_initial w (statusUrl info) i = Inl e)"
    and polled: "\<forall>i. 1 \<le> i \<and> i < length seq \<longrightarrow> status_polled w (statusUrl info) i = Inr (seq ! i)"
    and ok: "\<forall>t c. fst (getServerLogs svc (outputUrl info) opId t c) = None"
    and time: "\<forall>t. 1 \<le> t \<and> t \<le> length seq \<longrightarrow>
        logs_ms w (outputUrl info) t + read_ms w (statusUrl info) t < OPERATION_STATUS_CHECK_INTERVAL"
    and ticks: "length seq \<le> ticks"
  shows "fst (waitForServerOperationToFinish svc w ticks opId info) =
           (if terminal = OPERATION_COMPLETE_STATUS then Resolved ()
            else Rejected (Error (failedError svc))) \<and>
         logCursors (snd (waitForServerOperationToFinish svc w ticks opId info)) =
           cursorChain (\<lambda>t c. snd (getServerLogs svc (outputUrl info) opId t c)) 1 0 (length seq)"
proof -
  let ?opts = "\<lparr>retries = OPERATION_STATUS_CHECK_RETRY_COUNT, minTimeout = OPERATION_STATUS_CHECK_INTERVAL\<rparr>"
  from a have "1 + (a - 1) = a \<and> a - 1 \<le> 8" by arith
  then obtain d where d: "1 + d = a" "d \<le> 8" by blast
  have "\<exists>evs. retry_attempt (fetchFirstStatus svc w info) 1 (timeouts ?opts) = (Inr (seq ! 0), evs)"
    using d first before unfolding wait_timeouts
    by (intro retry_attempt_first_success[where a = a and d = d]) auto
  then obtain evs where r: "promiseRetry (fetchFirstStatus svc w info) ?opts = (Inr (seq ! 0), evs)"
    by (auto simp: promiseRetry_def)
  then have e: "logCursors evs = []"
    using retry_attempt_events[of svc w info 1 "timeouts ?opts" "Inr (seq ! 0)" evs]
    by (simp add: promiseRetry_def)
  have p: "\<forall>i<k. status_polled w (statusUrl info) (1 + i) =
            Inr ((replicate k OPERATION_IN_PROGRESS_STATUS @ [terminal]) ! Suc i)"
    using polled seq by simp
  have tk: "\<forall>i\<le>k. logs_ms w (outputUrl info) (1 + i) + read_ms w (statusUrl info) (1 + i)
            < OPERATION_STATUS_CHECK_INTERVAL"
    using time seq by simp
  from ticks seq have "k < ticks" by simp
  from poll_sequence[OF ok tm p tk this, of 0] obtain evs' where
    evs': "poll svc w opId info ticks 1 (seq ! 0) 0 =
       (if terminal = OPERATION_COMPLETE_STATUS then Resolved () else Rejected (Error (failedError svc)), evs')"
      "logCursors evs' =
         cursorChain (\<lambda>t c. snd (getServerLogs svc (outputUrl info) opId t c)) 1 0 (Suc k)"
    unfolding seq by auto
  have len: "length seq = Suc k" using seq by simp
  show ?thesis
    unfolding waitForServerOperationToFinish_def Let_def r len
    using evs' e by (simp add: logCursors_append)
qed

lemma wait_status_sequence:
  assumes tm: "terminal = OPERATION_COMPLETE_STATUS \<or> terminal = OPERATION_FAILED_STATUS"
    and seq: "seq = replicate k OPERATION_IN_PROGRESS_STATUS @ [terminal]"
    and a: "1 \<le> a \<and> a \<le> 9"
    and first: "status_initial w (statusUrl info) a = Inr (seq ! 0)"
    and before: "\<forall>i. 1 \<le> i \<and> i < a \<longrightarrow> (\<exists>e. status_initial w (statusUrl info) i = Inl e)"
    and polled: "\<forall>i. 1 \<le> i \<and> i < length seq \<longrightarrow> status_polled w (statusUrl info) i = Inr (seq ! i)"
    and ok: "\<forall>t c. fst (getServerLogs svc (outputUrl info) opId t c) = None"
    and mono: "\<forall>t c. c \<le> snd (getServerLogs svc (outputUrl info) opId t c)"
    and ticks: "length seq \<le> ticks"
    and time: "\<forall>t. 1 \<le> t \<and> t \<le> length seq \<longrightarrow>
        logs_ms w (outputUrl info) t + read_ms w (statusUrl info) t < OPERATION_STATUS_CHECK_INTERVAL"
  shows "fst (waitForServerOperationToFinish svc w ticks opId info) =
           (if terminal = OPERATION_COMPLETE_STATUS then Resolved ()
            else Rejected (Error (failedError svc))) \<and>
         length (logCursors (snd (waitForServerOperationToFinish svc w ticks opId info))) = length seq \<and>
         sorted (logCursors (snd (waitForServerOperationToFinish svc w ticks opId info)))"
proof -
  note c = wait_status_chain[OF tm seq a first before polled ok time ticks]
  from c have "logCursors (snd (waitForServerOperationToFinish svc w ticks opId info)) =
      cursorChain (\<lambda>t c. snd (getServerLogs svc (outputUrl info) opId t c)) 1 0 (length seq)"
    by (rule conjunct2)
  with cursorChain_sorted[OF mono, of 1 0 "length seq"] c show ?thesis
    by (simp add: cursorChain_length)
qed


lemma retry_attempt_immediate:
  "status_initial w (statusUrl info) n = Inr st \<Longrightarrow>
   retry_attempt (fetchFirstStatus svc w info) n ts = (Inr st, [Fetch (statusUrl info)])"
proof -
  assume "status_initial w (statusUrl info) n = Inr st"
  then have "fetchFirstStatus svc w info n = (Inr st, [Fetch (statusUrl info)])"
    by (simp add: fetchFirstStatus_def)
  then show ?thesis by (cases ts) simp_all
qed

lemma poll_logs_throw:
  assumes st: "st = OPERATION_COMPLETE_STATUS \<or> st = OPERATION_FAILED_STATUS \<or> st = OPERATION_IN_PROGRESS_STATUS"
    and throws: "\<forall>t. getServerLogs svc (outputUrl info) opId t c = (Some err, c)"
    and time: "\<forall>t. logs_ms w (outputUrl info) t + read_ms w (statusUrl info) t
        < OPERATION_STATUS_CHECK_INTERVAL"
  shows "poll svc w opId info n t st c =
     (Pending, concat (replicate n [Tick, GetServerLogs (outputUrl info) opId c, Unhandled err]))"
proof (induction n arbitrary: t)
  case 0
  show ?case by simp
next
  case (Suc n)
  from throws have "getServerLogs svc (outputUrl info) opId t c = (Some err, c)" by blast
  moreover from time have "logs_ms w (outputUrl info) t + read_ms w (statusUrl info) t
        < OPERATION_STATUS_CHECK_INTERVAL" by blast
  ultimately show ?case
    using intervalCallback_throw[OF st, of svc info opId t c err c w] Suc.IH[of "Suc t"]
      run_in_time[of w info t svc opId st c]
    by simp
qed

lemma example_times:
  "logs_ms unavailable logsUrl t + read_ms unavailable url t < OPERATION_STATUS_CHECK_INTERVAL"
  "logs_ms (scripted seq) logsUrl t + read_ms (scripted seq) url t < OPERATION_STATUS_CHECK_INTERVAL"
  "logs_ms flaky logsUrl t + read_ms flaky url t < OPERATION_STATUS_CHECK_INTERVAL"
  by (simp_all add: unavailable_def scripted_def flaky_def OPERATION_STATUS_CHECK_INTERVAL_def)

lemma example_urls:
  "statusUrl example_response = ''s3://status''"
  "resultUrl example_response = ''s3://result''"
  "outputUrl example_response = ''s3://output''"
  by (simp_all add: example_response_def)


text \<open>
  Claim C1, as amended. Let the status object show \<open>k\<close> times \<open>Building\<close> and then a
  terminal status (\<open>Success\<close> or \<open>Failed\<close>): the first of these statuses to the first read
  that succeeds (attempt \<open>a\<close> of the first phase), the following ones to the reads of the
  timer ticks, each of which succeeds. If moreover \<open>getServerLogs\<close> does not throw and
  every run of the timer callback is over before the next tick (its two calls take less
  than 1500 ms together), then, once the timer has ticked as often as there are
  statuses, the wait is resolved (with no value) on \<open>Success\<close> and rejected with
  \<open>failedError\<close> on \<open>Failed\<close>, and \<open>getServerLogs\<close> has been called once per status, the
  terminal one included. The first call sees the cursor 0 and every later call sees the
  cursor exactly as the call before it has left it; so the cursor values of the calls
  never decrease when \<open>getServerLogs\<close> never moves the cursor back.
\<close>

theorem wait_follows_status_sequence:
  assumes "terminal = OPERATION_COMPLETE_STATUS \<or> terminal = OPERATION_FAILED_STATUS"
    and "seq = replicate k OPERATION_IN_PROGRESS_STATUS @ [terminal]"
    and "1 \<le> a \<and> a \<le> 9"
    and "status_initial w (statusUrl info) a = Inr (seq ! 0)"
    and "\<forall>i. 1 \<le> i \<and> i < a \<longrightarrow> (\<exists>e. status_initial w (statusUrl info) i = Inl e)"
    and "\<forall>i. 1 \<le> i \<and> i < length seq \<longrightarrow> status_polled w (statusUrl info) i = Inr (seq ! i)"
    and "\<forall>t c. fst (getServerLogs svc (outputUrl info) opId t c) = None"
    and "\<forall>t. 1 \<le> t \<and> t \<le> length seq \<longrightarrow>
        logs_ms w (outputUrl info) t + read_ms w (statusUrl info) t < OPERATION_STATUS_CHECK_INTERVAL"
    and "length seq \<le> ticks"
  shows "fst (waitForServerOperationToFinish svc w ticks opId info) =
           (if terminal = OPERATION_COMPLETE_STATUS then Resolved ()
            else Rejected (Error (failedError svc))) \<and>
         length (logCursors (snd (waitForServerOperationToFinish svc w ticks opId info))) = length seq \<and>
         logCursors (snd (waitForServerOperationToFinish svc w ticks opId info)) =
           cursorChain (\<lambda>t c. snd (getServerLogs svc (outputUrl info) opId t c)) 1 0 (length seq) \<and>
         ((\<forall>t c. c \<le> snd (getServerLogs svc (outputUrl info) opId t c)) \<longrightarrow>
          sorted (logCursors (snd (waitForServerOperationToFinish svc w ticks opId info))))"
proof -
  let ?leaves = "\<lambda>t c. snd (getServerLogs svc (outputUrl info) opId t c)"
  note c = wait_status_chain[OF assms]
  from c have outcome: "fst (waitForServerOperationToFinish svc w ticks opId info) =
           (if terminal = OPERATION_COMPLETE_STATUS then Resolved ()
            else Rejected (Error (failedError svc)))"
    by (rule conjunct1)
  from c have chain: "logCursors (snd (waitForServerOperationToFinish svc w ticks opId info)) =
      cursorChain ?leaves 1 0 (length seq)"
    by (rule conjunct2)
  have len: "length (logCursors (snd (waitForServerOperationToFinish svc w ticks opId info))) = length seq"
    unfolding chain by (rule cursorChain_length)
  have srt: "(\<forall>t c. c \<le> ?leaves t c) \<longrightarrow>
      sorted (logCursors (snd (waitForServerOperationToFinish svc w ticks opId info)))"
    unfolding chain using cursorChain_sorted[of ?leaves 1 0 "length seq"] by blast
  from outcome len chain srt show ?thesis by blast
qed

theorem wait_follows_status_sequence_witness:
  "fst (waitForServerOperationToFinish advancing_logs (scripted [''Building'', ''Building'', ''Success''])
          3 ''0b1d'' example_response) = Resolved () \<and>
   logCursors (snd (waitForServerOperationToFinish advancing_logs
          (scripted [''Building'', ''Building'', ''Success'']) 3 ''0b1d'' example_response)) = [0, 10, 20] \<and>
   sorted (logCursors (snd (waitForServerOperationToFinish advancing_logs
          (scripted [''Building'', ''Building'', ''Success'']) 3 ''0b1d'' example_response))) \<and>
   fst (waitForServerOperationToFinish cloudPublishService (scripted [''Building'', ''Failed''])
          2 ''0b1d'' example_response) = Rejected (Error ''Publishing failed.'') \<and>
   logCursors (snd (waitForServerOperationToFinish cloudPublishService
          (scripted [''Building'', ''Failed'']) 2 ''0b1d'' example_response)) = [0, 0]"
proof -
  let ?s = "[''Building'', ''Building'', ''Success'']"
  let ?f = "[''Building'', ''Failed'']"
  have s1: "''Success'' = OPERATION_COMPLETE_STATUS \<or> ''Success'' = OPERATION_FAILED_STATUS"
    by (simp add: OPERATION_COMPLETE_STATUS_def)
  have s2: "?s = replicate 2 OPERATION_IN_PROGRESS_STATUS @ [''Success'']"
    by (simp add: OPERATION_IN_PROGRESS_STATUS_def numeral_2_eq_2)
  have s3: "1 \<le> (1::nat) \<and> (1::nat) \<le> 9" by simp
  have s4: "status_initial (scripted ?s) (statusUrl example_response) 1 = Inr (?s ! 0)"
    by (simp add: scripted_def)
  have s5: "\<forall>i. 1 \<le> i \<and> i < (1::nat) \<longrightarrow>
      (\<exists>e. status_initial (scripted ?s) (statusUrl example_response) i = Inl e)"
    by simp
  have s6: "\<forall>i. 1 \<le> i \<and> i < length ?s \<longrightarrow>
      status_polled (scripted ?s) (statusUrl example_response) i = Inr (?s ! i)"
    by (simp add: scripted_def)
  have s7: "\<forall>t c. fst (getServerLogs advancing_logs (outputUrl example_response) ''0b1d'' t c) = None"
    by (simp add: advancing_logs_def)
  have s8: "\<forall>t. 1 \<le> t \<and> t \<le> length ?s \<longrightarrow>
      logs_ms (scripted ?s) (outputUrl example_response) t
        + read_ms (scripted ?s) (statusUrl example_response) t < OPERATION_STATUS_CHECK_INTERVAL"
    using example_times(2) by blast
  have s9: "length ?s \<le> 3" by simp
  have sm: "\<forall>t c. c \<le> snd (getServerLogs advancing_logs (outputUrl example_response) ''0b1d'' t c)"
    by (simp add: advancing_logs_def)
  have sc: "cursorChain (\<lambda>t c. snd (getServerLogs advancing_logs (outputUrl example_response) ''0b1d'' t c))
      1 0 (length ?s) = [0, 10, 20]"
    by (simp add: advancing_logs_def)
  have f1: "''Failed'' = OPERATION_COMPLETE_STATUS \<or> ''Failed'' = OPERATION_FAILED_STATUS"
    by (simp add: OPERATION_FAILED_STATUS_def)
  have f2: "?f = replicate 1 OPERATION_IN_PROGRESS_STATUS @ [''Failed'']"
    by (simp add: OPERATION_IN_PROGRESS_STATUS_def)
  have f4: "status_initial (scripted ?f) (statusUrl example_response) 1 = Inr (?f ! 0)"
    by (simp add: scripted_def)
  have f5: "\<forall>i. 1 \<le> i \<and> i < (1::nat) \<longrightarrow>
      (\<exists>e. status_initial (scripted ?f) (statusUrl example_response) i = Inl e)"
    by simp
  have f6: "\<forall>i. 1 \<le> i \<and> i < length ?f \<longrightarrow>
      status_polled (scripted ?f) (statusUrl example_response) i = Inr (?f ! i)"
    by (simp add: scripted_def)
  have f7: "\<forall>t c. fst (getServerLogs cloudPublishService (outputUrl example_response) ''0b1d'' t c) = None"
    by (simp add: cloudPublishService_def)
  have f8: "\<forall>t. 1 \<le> t \<and> t \<le> length ?f \<longrightarrow>
      logs_ms (scripted ?f) (outputUrl example_response) t
        + read_ms (scripted ?f) (statusUrl example_response) t < OPERATION_STATUS_CHECK_INTERVAL"
    using example_times(2) by blast
  have f9: "length ?f \<le> 2" by simp
  have fc: "cursorChain (\<lambda>t c. snd (getServerLogs cloudPublishService (outputUrl example_response) ''0b1d'' t c))
      1 0 (length ?f) = [0, 0]"
    by (simp add: cloudPublishService_def)
  have ne: "''Failed'' \<noteq> OPERATION_COMPLETE_STATUS" by (simp add: OPERATION_COMPLETE_STATUS_def)
  have fe: "failedError cloudPublishService = ''Publishing failed.''" by (simp add: cloudPublishService_def)
  note s = wait_follows_status_sequence [OF s1 s2 s3 s4 s5 s6 s7 s8 s9, unfolded sc]
  note f = wait_follows_status_sequence [OF f1 f2 s3 f4 f5 f6 f7 f8 f9, unfolded fc fe]
  from s sm have "fst (waitForServerOperationToFinish advancing_logs (scripted ?s) 3 ''0b1d''
        example_response) = Resolved () \<and>
      logCursors (snd (waitForServerOperationToFinish advancing_logs (scripted ?s) 3 ''0b1d''
        example_response)) = [0, 10, 20] \<and>
      sorted (logCursors (snd (waitForServerOperationToFinish advancing_logs (scripted ?s) 3 ''0b1d''
        example_response)))"
    by (simp add: OPERATION_COMPLETE_STATUS_def)
  moreover from f ne have "fst (waitForServerOperationToFinish cloudPublishService (scripted ?f) 2
        ''0b1d'' example_response) = Rejected (Error ''Publishing failed.'') \<and>
      logCursors (snd (waitForServerOperationToFinish cloudPublishService (scripted ?f) 2 ''0b1d''
        example_response)) = [0, 0]"
    by simp
  ultimately show ?thesis by blast
qed

text \<open>
  Claim C1 as stated fails when a read of the polling phase fails. The status object
  shows \<open>Building\<close> to the first read, is not there for the read of tick 1 and shows
  \<open>Success\<close> to the read of tick 2: the statuses observed are \<open>Building\<close> and \<open>Success\<close>,
  the wait is resolved, and \<open>getServerLogs\<close> has been called three times, once more than
  there are statuses. The run of tick 1 ends with the error of its read, which nothing
  handles, and the run of tick 2 finds \<open>Building\<close> in \<open>serverStatus\<close> again.
\<close>

theorem wait_logs_called_after_failed_read:
  "status_initial flaky ''s3://status'' 1 = Inr ''Building'' \<and>
   status_polled flaky ''s3://status'' 1 = Inl (Error ''Not Found'') \<and>
   status_polled flaky ''s3://status'' 2 = Inr ''Success'' \<and>
   waitForServerOperationToFinish cloudPublishService flaky 3 ''0b1d'' example_response =
     (Resolved (), [Fetch ''s3://status'', SetInterval 1500,
        Tick, GetServerLogs ''s3://output'' ''0b1d'' 0, Fetch ''s3://status'',
          Unhandled (Error ''Not Found''),
        Tick, GetServerLogs ''s3://output'' ''0b1d'' 0, Fetch ''s3://status'',
        Tick, GetServerLogs ''s3://output'' ''0b1d'' 0, ClearInterval]) \<and>
   length (logCursors (snd (waitForServerOperationToFinish cloudPublishService flaky 3 ''0b1d''
     example_response))) = 3 \<and>
   length (logCursors (snd (waitForServerOperationToFinish cloudPublishService flaky 3 ''0b1d''
     example_response))) \<noteq> length [''Building'', ''Success'']"
proof -
  have s1: "status_initial flaky (statusUrl example_response) 1 = Inr ''Building''"
    by (simp add: flaky_def)
  have r: "retry_attempt (fetchFirstStatus cloudPublishService flaky example_response) 1
      [1500, 3000, 6000, 12000, 24000, 48000, 96000, 192000] =
      (Inr ''Building'', [Fetch (statusUrl example_response)])"
    by (rule retry_attempt_immediate[OF s1])
  have l: "\<And>t. getServerLogs cloudPublishService (outputUrl example_response) ''0b1d'' t 0 = (None, 0)"
    by (simp add: cloudPublishService_def)
  have p1: "status_polled flaky (statusUrl example_response) (Suc 0) = Inl (Error ''Not Found'')"
    by (simp add: flaky_def)
  have p2: "status_polled flaky (statusUrl example_response) (Suc (Suc 0)) = Inr OPERATION_COMPLETE_STATUS"
    by (simp add: flaky_def OPERATION_COMPLETE_STATUS_def)
  have cb1: "intervalCallback cloudPublishService flaky ''0b1d'' example_response (Suc 0)
      OPERATION_IN_PROGRESS_STATUS 0 =
      (Running OPERATION_IN_PROGRESS_STATUS 0,
       [GetServerLogs (outputUrl example_response) ''0b1d'' 0, Fetch (statusUrl example_response),
        Unhandled (Error ''Not Found'')])"
    by (rule intervalCallback_read_fails[OF l p1])
  have cb2: "intervalCallback cloudPublishService flaky ''0b1d'' example_response (Suc (Suc 0))
      OPERATION_IN_PROGRESS_STATUS 0 =
      (Running OPERATION_COMPLETE_STATUS 0,
       [GetServerLogs (outputUrl example_response) ''0b1d'' 0, Fetch (statusUrl example_response)])"
    by (rule intervalCallback_in_progress[OF l p2])
  have cb3: "intervalCallback cloudPublishService flaky ''0b1d'' example_response (Suc (Suc (Suc 0)))
      OPERATION_COMPLETE_STATUS 0 =
      (Settled (Resolved ()), [GetServerLogs (outputUrl example_response) ''0b1d'' 0, ClearInterval])"
    by (rule intervalCallback_complete[OF l])
  have rt: "\<And>t st c. \<not> OPERATION_STATUS_CHECK_INTERVAL
      \<le> runTime cloudPublishService flaky ''0b1d'' example_response t st c"
    by (rule run_in_time) (rule example_times(3))
  have p0: "poll cloudPublishService flaky ''0b1d'' example_response (Suc (Suc (Suc 0))) (Suc 0)
      OPERATION_IN_PROGRESS_STATUS 0 =
     (Resolved (),
      [Tick, GetServerLogs (outputUrl example_response) ''0b1d'' 0, Fetch (statusUrl example_response),
         Unhandled (Error ''Not Found''),
       Tick, GetServerLogs (outputUrl example_response) ''0b1d'' 0, Fetch (statusUrl example_response),
       Tick, GetServerLogs (outputUrl example_response) ''0b1d'' 0, ClearInterval])"
    by (simp add: cb1 cb2 cb3 rt)
  have b: "''Building'' = OPERATION_IN_PROGRESS_STATUS"
    by (simp add: OPERATION_IN_PROGRESS_STATUS_def)
  have n3: "(3::nat) = Suc (Suc (Suc 0))" by simp
  have p: "poll cloudPublishService flaky ''0b1d'' example_response 3 (Suc 0) ''Building'' 0 =
     (Resolved (),
      [Tick, GetServerLogs (outputUrl example_response) ''0b1d'' 0, Fetch (statusUrl example_response),
         Unhandled (Error ''Not Found''),
       Tick, GetServerLogs (outputUrl example_response) ''0b1d'' 0, Fetch (statusUrl example_response),
       Tick, GetServerLogs (outputUrl example_response) ''0b1d'' 0, ClearInterval])"
    unfolding b n3 by (rule p0)
  have w: "waitForServerOperationToFinish cloudPublishService flaky 3 ''0b1d'' example_response =
     (Resolved (), [Fetch ''s3://status'', SetInterval 1500,
        Tick, GetServerLogs ''s3://output'' ''0b1d'' 0, Fetch ''s3://status'',
          Unhandled (Error ''Not Found''),
        Tick, GetServerLogs ''s3://output'' ''0b1d'' 0, Fetch ''s3://status'',
        Tick, GetServerLogs ''s3://output'' ''0b1d'' 0, ClearInterval])"
    unfolding waitForServerOperationToFinish_def Let_def promiseRetry_def wait_timeouts r
    by (simp add: p OPERATION_STATUS_CHECK_INTERVAL_def example_urls)
  have a: "status_initial flaky ''s3://status'' 1 = Inr ''Building'' \<and>
      status_polled flaky ''s3://status'' 1 = Inl (Error ''Not Found'') \<and>
      status_polled flaky ''s3://status'' 2 = Inr ''Success''"
    by (simp add: flaky_def)
  show ?thesis unfolding w using a by simp
qed

text \<open>
  Claim C2, as amended. If the status object cannot be read at any attempt of the first
  phase, the wait reads it nine times (\<open>retries: 8\<close> is the number of retries after the
  first attempt), waits 1500, 3000, ..., 192000 ms between two reads (so at least 1500
  ms), and is then rejected with \<open>failedToStartError\<close>; the timer of the polling phase is
  never started, so no read of that phase is made.
\<close>

theorem wait_failed_to_start:
  assumes "\<forall>i. 1 \<le> i \<and> i \<le> 9 \<longrightarrow> (\<exists>e. status_initial w (statusUrl info) i = Inl e)"
  shows "waitForServerOperationToFinish svc w ticks opId info =
     (Rejected (Error (failedToStartError svc)),
      Fetch (statusUrl info) # concat (map (\<lambda>t. [RetryTimeout t, Fetch (statusUrl info)])
        [1500, 3000, 6000, 12000, 24000, 48000, 96000, 192000])) \<and>
    length (fetches (snd (waitForServerOperationToFinish svc w ticks opId info))) = 9 \<and>
    fetchTimes 0 0 (snd (waitForServerOperationToFinish svc w ticks opId info)) =
      [0, 1500, 4500, 10500, 22500, 46500, 94500, 190500, 382500] \<and>
    Tick \<notin> set (snd (waitForServerOperationToFinish svc w ticks opId info))"
  unfolding wait_unavailable[OF assms] by simp

theorem wait_failed_to_start_witness:
  "waitForServerOperationToFinish cloudPublishService unavailable 4 ''0b1d'' example_response =
     (Rejected (Error ''Failed to start publishing.''),
      [Fetch ''s3://status'', RetryTimeout 1500, Fetch ''s3://status'', RetryTimeout 3000,
       Fetch ''s3://status'', RetryTimeout 6000, Fetch ''s3://status'', RetryTimeout 12000,
       Fetch ''s3://status'', RetryTimeout 24000, Fetch ''s3://status'', RetryTimeout 48000,
       Fetch ''s3://status'', RetryTimeout 96000, Fetch ''s3://status'', RetryTimeout 192000,
       Fetch ''s3://status''])"
proof -
  have "\<forall>i. 1 \<le> i \<and> i \<le> 9 \<longrightarrow>
      (\<exists>e. status_initial unavailable (statusUrl example_response) i = Inl e)"
    by (simp add: unavailable_def)
  from wait_failed_to_start [OF this, of cloudPublishService 4 "''0b1d''"]
  show ?thesis by (simp add: cloudPublishService_def example_urls)
qed

text \<open>
  Claim C2 as stated (at most 8 attempts) fails: with a status object that is never
  there, the publish service reads it 9 times before it gives up.
\<close>

theorem wait_nine_attempts:
  "fst (waitForServerOperationToFinish cloudPublishService unavailable 0 ''0b1d'' example_response)
     = Rejected (Error ''Failed to start publishing.'') \<and>
   length (fetches (snd (waitForServerOperationToFinish cloudPublishService unavailable 0 ''0b1d''
     example_response))) = 9 \<and>
   \<not> length (fetches (snd (waitForServerOperationToFinish cloudPublishService unavailable 0 ''0b1d''
     example_response))) \<le> 8"
proof -
  have "\<forall>i. 1 \<le> i \<and> i \<le> 9 \<longrightarrow> (\<exists>e. status_initial unavailable (statusUrl example_response) i = Inl e)"
    by (simp add: unavailable_def)
  from wait_unavailable[OF this] show ?thesis
    by (simp add: cloudPublishService_def)
qed

text \<open>
  Claim C3, as amended. The repeating timer is running after the events of a wait
  exactly when the wait is still pending: whenever the wait is settled (resolved on
  \<open>Success\<close>, rejected on \<open>Failed\<close>, or rejected before the timer was started) the timer is
  cancelled. A run of the callback in which \<open>getServerLogs\<close> throws is not an exit: the
  error is unhandled, the timer is not cleared, the wait is not settled and
  \<open>serverStatus\<close> keeps its value for the next run.
\<close>

theorem interval_cleared_when_settled:
  "timerActive False (snd (waitForServerOperationToFinish svc w ticks opId info))
     = (fst (waitForServerOperationToFinish svc w ticks opId info) = Pending) \<and>
   (\<forall>tick st cursor err cursor'.
      (st = OPERATION_COMPLETE_STATUS \<or> st = OPERATION_FAILED_STATUS \<or> st = OPERATION_IN_PROGRESS_STATUS) \<and>
      getServerLogs svc (outputUrl info) opId tick cursor = (Some err, cursor') \<longrightarrow>
      intervalCallback svc w opId info tick st cursor =
        (Running st cursor', [GetServerLogs (outputUrl info) opId cursor, Unhandled err]))"
  using wait_timer intervalCallback_throw by blast

theorem interval_cleared_when_settled_witness:
  "\<not> timerActive False (snd (waitForServerOperationToFinish cloudPublishService
        (scripted [''Building'', ''Failed'']) 2 ''0b1d'' example_response)) \<and>
   intervalCallback throwing_logs unavailable ''0b1d'' example_response 1 ''Failed'' 0 =
     (Running ''Failed'' 0, [GetServerLogs ''s3://output'' ''0b1d'' 0,
        Unhandled (Error ''logs are not there'')])"
proof -
  let ?f = "[''Building'', ''Failed'']"
  have f1: "''Failed'' = OPERATION_COMPLETE_STATUS \<or> ''Failed'' = OPERATION_FAILED_STATUS"
    by (simp add: OPERATION_FAILED_STATUS_def)
  have f2: "?f = replicate 1 OPERATION_IN_PROGRESS_STATUS @ [''Failed'']"
    by (simp add: OPERATION_IN_PROGRESS_STATUS_def)
  have s3: "1 \<le> (1::nat) \<and> (1::nat) \<le> 9" by simp
  have f4: "status_initial (scripted ?f) (statusUrl example_response) 1 = Inr (?f ! 0)"
    by (simp add: scripted_def)
  have f5: "\<forall>i. 1 \<le> i \<and> i < (1::nat) \<longrightarrow>
      (\<exists>e. status_initial (scripted ?f) (statusUrl example_response) i = Inl e)"
    by simp
  have f6: "\<forall>i. 1 \<le> i \<and> i < length ?f \<longrightarrow>
      status_polled (scripted ?f) (statusUrl example_response) i = Inr (?f ! i)"
    by (simp add: scripted_def)
  have f7: "\<forall>t c. fst (getServerLogs cloudPublishService (outputUrl example_response) ''0b1d'' t c) = None"
    by (simp add: cloudPublishService_def)
  have f8: "\<forall>t c. c \<le> snd (getServerLogs cloudPublishService (outputUrl example_response) ''0b1d'' t c)"
    by (simp add: cloudPublishService_def)
  have f9: "length ?f \<le> 2" by simp
  have f10: "\<forall>t. 1 \<le> t \<and> t \<le> length ?f \<longrightarrow>
      logs_ms (scripted ?f) (outputUrl example_response) t
        + read_ms (scripted ?f) (statusUrl example_response) t < OPERATION_STATUS_CHECK_INTERVAL"
    using example_times(2) by blast
  have settled: "fst (waitForServerOperationToFinish cloudPublishService (scripted ?f) 2 ''0b1d''
      example_response) \<noteq> Pending"
    using wait_status_sequence [OF f1 f2 s3 f4 f5 f6 f7 f8 f9 f10] by auto
  have thr: "(''Failed'' = OPERATION_COMPLETE_STATUS \<or> ''Failed'' = OPERATION_FAILED_STATUS
      \<or> ''Failed'' = OPERATION_IN_PROGRESS_STATUS) \<and>
      getServerLogs throwing_logs (outputUrl example_response) ''0b1d'' 1 0 =
        (Some (Error ''logs are not there''), 0)"
    by (simp add: OPERATION_FAILED_STATUS_def throwing_logs_def)
  from interval_cleared_when_settled [of cloudPublishService "scripted ?f" 2 "''0b1d''" example_response]
    settled
  have a: "\<not> timerActive False (snd (waitForServerOperationToFinish cloudPublishService
        (scripted ?f) 2 ''0b1d'' example_response))"
    by blast
  from interval_cleared_when_settled [of throwing_logs unavailable 0 "''0b1d''" example_response] thr
  have "intervalCallback throwing_logs unavailable ''0b1d'' example_response 1 ''Failed'' 0 =
     (Running ''Failed'' 0, [GetServerLogs (outputUrl example_response) ''0b1d'' 0,
        Unhandled (Error ''logs are not there'')])"
    by blast
  with a show ?thesis by (simp add: example_urls)
qed

text \<open>
  Claim C3 as stated fails on the path where \<open>getServerLogs\<close> throws: with the status
  \<open>Success\<close> and a \<open>getServerLogs\<close> that throws, three ticks later the timer has not been
  cleared, it has fired again after each failure and the wait is still pending.
\<close>

theorem interval_not_cleared_when_logs_throw:
  "waitForServerOperationToFinish throwing_logs (scripted [''Success'']) 3 ''0b1d'' example_response =
     (Pending, [Fetch ''s3://status'', SetInterval 1500,
        Tick, GetServerLogs ''s3://output'' ''0b1d'' 0, Unhandled (Error ''logs are not there''),
        Tick, GetServerLogs ''s3://output'' ''0b1d'' 0, Unhandled (Error ''logs are not there''),
        Tick, GetServerLogs ''s3://output'' ''0b1d'' 0, Unhandled (Error ''logs are not there'')]) \<and>
   timerActive False (snd (waitForServerOperationToFinish throwing_logs (scripted [''Success'']) 3
     ''0b1d'' example_response)) \<and>
   ClearInterval \<notin> set (snd (waitForServerOperationToFinish throwing_logs (scripted [''Success'']) 3
     ''0b1d'' example_response))"
proof -
  have s1: "status_initial (scripted [''Success'']) (statusUrl example_response) 1 = Inr ''Success''"
    by (simp add: scripted_def)
  have r: "retry_attempt (fetchFirstStatus throwing_logs (scripted [''Success'']) example_response) 1
      [1500, 3000, 6000, 12000, 24000, 48000, 96000, 192000] =
      (Inr ''Success'', [Fetch (statusUrl example_response)])"
    by (rule retry_attempt_immediate[OF s1])
  have st: "''Success'' = OPERATION_COMPLETE_STATUS \<or> ''Success'' = OPERATION_FAILED_STATUS
      \<or> ''Success'' = OPERATION_IN_PROGRESS_STATUS"
    by (simp add: OPERATION_COMPLETE_STATUS_def)
  have th: "\<forall>t. getServerLogs throwing_logs (outputUrl example_response) ''0b1d'' t 0 =
      (Some (Error ''logs are not there''), 0)"
    by (simp add: throwing_logs_def)
  have tm: "\<forall>t. logs_ms (scripted [''Success'']) (outputUrl example_response) t
      + read_ms (scripted [''Success'']) (statusUrl example_response) t
        < OPERATION_STATUS_CHECK_INTERVAL"
    using example_times(2) by blast
  have c3: "\<And>xs::event list. concat (replicate 3 xs) = xs @ xs @ xs"
    by (simp add: numeral_3_eq_3)
  have p: "poll throwing_logs (scripted [''Success'']) ''0b1d'' example_response 3 (Suc 0) ''Success'' 0 =
     (Pending, concat (replicate 3 [Tick, GetServerLogs (outputUrl example_response) ''0b1d'' 0,
        Unhandled (Error ''logs are not there'')]))"
    by (rule poll_logs_throw[OF st th tm])
  have w: "waitForServerOperationToFinish throwing_logs (scripted [''Success'']) 3 ''0b1d'' example_response =
     (Pending, [Fetch ''s3://status'', SetInterval 1500,
        Tick, GetServerLogs ''s3://output'' ''0b1d'' 0, Unhandled (Error ''logs are not there''),
        Tick, GetServerLogs ''s3://output'' ''0b1d'' 0, Unhandled (Error ''logs are not there''),
        Tick, GetServerLogs ''s3://output'' ''0b1d'' 0, Unhandled (Error ''logs are not there'')])"
    unfolding waitForServerOperationToFinish_def Let_def promiseRetry_def wait_timeouts r
    by (simp add: p c3 OPERATION_STATUS_CHECK_INTERVAL_def example_urls)
  show ?thesis unfolding w by simp
qed


section \<open>Properties of the publish and codesign services\<close>

lemma getPreparePackagePaths_fetches:
  "fetches (snd (getPreparePackagePaths w paths)) = []"
  by (induction paths) (auto split: sum.splits prod.splits)

lemma publishCore_after_wait:
  assumes prep: "fst (getPreparePackagePaths w paths) = Inr prepared"
    and pub: "publish' (req\<lparr>packagePaths := prepared\<rparr>) = Inr response"
    and settled: "fst (waitForServerOperationToFinish cloudPublishService w ticks (uuid_v4 w) response) \<noteq> Pending"
  shows "fst (publishCore w publish' ticks req paths getError) =
     (case result_at w (resultUrl response) of
        Inl err \<Rightarrow> Rejected err
      | Inr publishResult \<Rightarrow>
          if code publishResult \<noteq> 0 \<or> errors publishResult \<noteq> []
          then Rejected ((getError (req\<lparr>packagePaths := prepared\<rparr>) publishResult)
                  \<lparr>stderr_of := Some (stderr publishResult), stdout_of := Some (stdout publishResult)\<rparr>)
          else Resolved ()) \<and>
    fetches (snd (publishCore w publish' ticks req paths getError)) =
      fetches (snd (waitForServerOperationToFinish cloudPublishService w ticks (uuid_v4 w) response))
        @ [resultUrl response]"
proof -
  obtain evs where g: "getPreparePackagePaths w paths = (Inr prepared, evs)"
    using prep by (cases "getPreparePackagePaths w paths") auto
  obtain p evs' where wt: "waitForServerOperationToFinish cloudPublishService w ticks (uuid_v4 w) response = (p, evs')"
    by (cases "waitForServerOperationToFinish cloudPublishService w ticks (uuid_v4 w) response")
  have up: "fetches evs = []"
    using getPreparePackagePaths_fetches[of w paths] g by simp
  from settled wt have "p \<noteq> Pending" by simp
  then show ?thesis
    unfolding publishCore_def g
    by (cases p) (auto simp: Let_def pub wt fetches_append up split: sum.splits)
qed


text \<open>
  Claim C5. When the packages are prepared, the backend accepts the request, the wait
  is over and the result object is read, \<open>publishCore\<close> throws the error of the
  classifier, with \<open>stderr\<close> and \<open>stdout\<close> of the result attached, exactly when \<open>code\<close> is
  not 0 or \<open>errors\<close> is not empty; it completes exactly when \<open>code\<close> is 0 and \<open>errors\<close> is
  empty.
\<close>

theorem publishCore_throws_iff:
  assumes "fst (getPreparePackagePaths w paths) = Inr prepared"
    and "publish' (req\<lparr>packagePaths := prepared\<rparr>) = Inr response"
    and "fst (waitForServerOperationToFinish cloudPublishService w ticks (uuid_v4 w) response) \<noteq> Pending"
    and "result_at w (resultUrl response) = Inr publishResult"
  shows "(fst (publishCore w publish' ticks req paths getError) =
            Rejected ((getError (req\<lparr>packagePaths := prepared\<rparr>) publishResult)
                  \<lparr>stderr_of := Some (stderr publishResult), stdout_of := Some (stdout publishResult)\<rparr>))
          = (code publishResult \<noteq> 0 \<or> errors publishResult \<noteq> []) \<and>
         (fst (publishCore w publish' ticks req paths getError) = Resolved ())
          = (code publishResult = 0 \<and> errors publishResult = [])"
  using publishCore_after_wait[where w = w and paths = paths and prepared = prepared
      and publish' = publish' and req = req and response = response and ticks = ticks
      and getError = getError] assms
  by auto

lemma wait_publish_success:
  assumes "status_initial w (statusUrl info) 1 = Inr ''Success''"
    and "logs_ms w (outputUrl info) 1 + read_ms w (statusUrl info) 1
        < OPERATION_STATUS_CHECK_INTERVAL"
  shows "fst (waitForServerOperationToFinish cloudPublishService w (Suc n) opId info) = Resolved ()"
proof -
  have s1: "''Success'' = OPERATION_COMPLETE_STATUS \<or> ''Success'' = OPERATION_FAILED_STATUS"
    by (simp add: OPERATION_COMPLETE_STATUS_def)
  have s2: "[''Success''] = replicate 0 OPERATION_IN_PROGRESS_STATUS @ [''Success'']" by simp
  have s3: "1 \<le> (1::nat) \<and> (1::nat) \<le> 9" by simp
  have s4: "status_initial w (statusUrl info) 1 = Inr ([''Success''] ! 0)"
    using assms by simp
  have s5: "\<forall>i. 1 \<le> i \<and> i < (1::nat) \<longrightarrow> (\<exists>e. status_initial w (statusUrl info) i = Inl e)"
    by simp
  have s6: "\<forall>i. 1 \<le> i \<and> i < length [''Success''] \<longrightarrow>
      status_polled w (statusUrl info) i = Inr ([''Success''] ! i)"
    by simp
  have s7: "\<forall>t c. fst (getServerLogs cloudPublishService (outputUrl info) opId t c) = None"
    by (simp add: cloudPublishService_def)
  have s8: "\<forall>t c. c \<le> snd (getServerLogs cloudPublishService (outputUrl info) opId t c)"
    by (simp add: cloudPublishService_def)
  have s9: "length [''Success''] \<le> Suc n" by simp
  have s10: "\<forall>t. 1 \<le> t \<and> t \<le> length [''Success''] \<longrightarrow>
      logs_ms w (outputUrl info) t + read_ms w (statusUrl info) t < OPERATION_STATUS_CHECK_INTERVAL"
    using assms(2) by (auto simp: le_Suc_eq)
  from wait_status_sequence [OF s1 s2 s3 s4 s5 s6 s7 s8 s9 s10]
  show ?thesis by (simp add: OPERATION_COMPLETE_STATUS_def)
qed

lemma wait_publish_finished:
  "fst (waitForServerOperationToFinish cloudPublishService (finished_with r) (Suc n) opId example_response)
     = Resolved ()"
  by (rule wait_publish_success)
    (simp_all add: finished_with_def scripted_def unavailable_def OPERATION_STATUS_CHECK_INTERVAL_def)

lemma wait_publish_never_started:
  "fst (waitForServerOperationToFinish cloudPublishService (never_started_with r) n opId example_response)
     = Rejected (Error ''Failed to start publishing.'')"
proof -
  have "\<forall>i. 1 \<le> i \<and> i \<le> 9 \<longrightarrow>
      (\<exists>e. status_initial (never_started_with r) (statusUrl example_response) i = Inl e)"
    by (simp add: never_started_with_def unavailable_def)
  from wait_unavailable[OF this] show ?thesis by (simp add: cloudPublishService_def)
qed

lemma example_prepare:
  "fst (getPreparePackagePaths (finished_with r) [''app.ipa'']) = Inr [''app.ipa'']"
  "fst (getPreparePackagePaths (never_started_with r) [''app.ipa'']) = Inr [''app.ipa'']"
  by (simp_all add: finished_with_def never_started_with_def scripted_def unavailable_def)

theorem publishCore_throws_iff_witness:
  "fst (publishCore (finished_with failed_result) (publish example_publish_deps) 1 example_request
         [''app.ipa''] (googleGetError example_runtime)) =
     Rejected ((googleGetError example_runtime example_request failed_result)
        \<lparr>stderr_of := Some ''[!] Something failed'', stdout_of := Some ''uploading''\<rparr>) \<and>
   fst (publishCore (finished_with clean_result) (publish example_publish_deps) 1 example_request
         [''app.ipa''] (googleGetError example_runtime)) = Resolved ()"
proof -
  have pub: "publish example_publish_deps (example_request\<lparr>packagePaths := [''app.ipa'']\<rparr>) = Inr example_response"
    by (simp add: example_publish_deps_def)
  have st: "\<And>r. fst (waitForServerOperationToFinish cloudPublishService (finished_with r) 1
      (uuid_v4 (finished_with r)) example_response) \<noteq> Pending"
    using wait_publish_finished[of _ 0] by simp
  have res: "\<And>r. result_at (finished_with r) (resultUrl example_response) = Inr r"
    by (simp add: finished_with_def)
  have rq: "example_request\<lparr>packagePaths := [''app.ipa'']\<rparr> = example_request"
    by (simp add: example_request_def)
  from publishCore_throws_iff [where w = "finished_with failed_result"
         and publish' = "publish example_publish_deps" and req = example_request
         and prepared = "[''app.ipa'']" and paths = "[''app.ipa'']" and response = example_response
         and ticks = 1 and publishResult = failed_result and getError = "googleGetError example_runtime",
         OF example_prepare(1) pub st res]
       publishCore_throws_iff [where w = "finished_with clean_result"
         and publish' = "publish example_publish_deps" and req = example_request
         and prepared = "[''app.ipa'']" and paths = "[''app.ipa'']" and response = example_response
         and ticks = 1 and publishResult = clean_result and getError = "googleGetError example_runtime",
         OF example_prepare(1) pub st res]
  show ?thesis unfolding rq by (simp add: failed_result_def clean_result_def)
qed

text \<open>
  Claim C10. Once the wait is over, however it ended, \<open>publishCore\<close> reads the result
  object (the read of the result location is the last read it makes) and its outcome is
  a function of that read alone: the error of the read, the error of the classifier when
  \<open>code\<close> or \<open>errors\<close> is set, success otherwise. A wait that was rejected, followed by a
  clean result object, yields success.
\<close>

theorem publishCore_ignores_wait_outcome:
  assumes "fst (getPreparePackagePaths w paths) = Inr prepared"
    and "publish' (req\<lparr>packagePaths := prepared\<rparr>) = Inr response"
    and "fst (waitForServerOperationToFinish cloudPublishService w ticks (uuid_v4 w) response) \<noteq> Pending"
  shows "fst (publishCore w publish' ticks req paths getError) =
     (case result_at w (resultUrl response) of
        Inl err \<Rightarrow> Rejected err
      | Inr publishResult \<Rightarrow>
          if code publishResult \<noteq> 0 \<or> errors publishResult \<noteq> []
          then Rejected ((getError (req\<lparr>packagePaths := prepared\<rparr>) publishResult)
                  \<lparr>stderr_of := Some (stderr publishResult), stdout_of := Some (stdout publishResult)\<rparr>)
          else Resolved ()) \<and>
    fetches (snd (publishCore w publish' ticks req paths getError)) =
      fetches (snd (waitForServerOperationToFinish cloudPublishService w ticks (uuid_v4 w) response))
        @ [resultUrl response] \<and>
    (\<forall>publishResult. result_at w (resultUrl response) = Inr publishResult \<and>
        code publishResult = 0 \<and> errors publishResult = [] \<longrightarrow>
        fst (publishCore w publish' ticks req paths getError) = Resolved ())"
  using publishCore_after_wait[where w = w and paths = paths and prepared = prepared
      and publish' = publish' and req = req and response = response and ticks = ticks
      and getError = getError] assms
  by auto

theorem publishCore_ignores_wait_outcome_witness:
  "fst (waitForServerOperationToFinish cloudPublishService (never_started_with clean_result) 0
      ''0b1d'' example_response) = Rejected (Error ''Failed to start publishing.'') \<and>
   fst (publishCore (never_started_with clean_result) (publish example_publish_deps) 0 example_request
         [''app.ipa''] (itunesGetError example_runtime)) = Resolved () \<and>
   last (fetches (snd (publishCore (never_started_with clean_result) (publish example_publish_deps) 0
         example_request [''app.ipa''] (itunesGetError example_runtime)))) = ''s3://result''"
proof -
  let ?w = "never_started_with clean_result"
  have pub: "publish example_publish_deps (example_request\<lparr>packagePaths := [''app.ipa'']\<rparr>) = Inr example_response"
    by (simp add: example_publish_deps_def)
  have st: "fst (waitForServerOperationToFinish cloudPublishService ?w 0 (uuid_v4 ?w) example_response)
      \<noteq> Pending"
    by (simp add: wait_publish_never_started)
  have res: "result_at ?w (resultUrl example_response) = Inr clean_result"
    by (simp add: never_started_with_def)
  from publishCore_ignores_wait_outcome [where w = ?w
         and publish' = "publish example_publish_deps" and req = example_request
         and prepared = "[''app.ipa'']" and paths = "[''app.ipa'']" and response = example_response
         and ticks = 0 and getError = "itunesGetError example_runtime",
         OF example_prepare(2) pub st, unfolded res]
  show ?thesis
    by (simp add: wait_publish_never_started clean_result_def example_urls)
qed


lemma classifier_has_no_id:
  "buildId (itunesGetError rt req r) = None" "cloudOperationId (itunesGetError rt req r) = None"
  "buildId (googleGetError rt req r) = None" "cloudOperationId (googleGetError rt req r) = None"
  by (simp_all add: itunesGetError_def googleGetError_def Let_def Error_def)

text \<open>
  Claim C4, as amended. Every error with which \<open>generateCodesignFiles\<close> is rejected after
  the validation of its parameters carries the generated identifier of the operation,
  as \<open>buildId\<close> and as \<open>cloudOperationId\<close>. The publish service attaches no identifier: the
  error that \<open>publishCore\<close> throws for a result object with \<open>code\<close> or \<open>errors\<close> set, under
  either classifier, has neither property.
\<close>

theorem operation_id_attached_by_codesign:
  "(validateParameteres codesignData projectDir = None \<and>
    generateCodesignFiles w rt cs deps codesignData projectDir = Rejected err \<longrightarrow>
      buildId err = Some (uuid_v4 w) \<and> cloudOperationId err = Some (uuid_v4 w)) \<and>
   (fst (getPreparePackagePaths w paths) = Inr prepared \<and>
    publish' (req\<lparr>packagePaths := prepared\<rparr>) = Inr response \<and>
    fst (waitForServerOperationToFinish cloudPublishService w ticks (uuid_v4 w) response) \<noteq> Pending \<and>
    result_at w (resultUrl response) = Inr publishResult \<and>
    (code publishResult \<noteq> 0 \<or> errors publishResult \<noteq> []) \<and>
    (getError = itunesGetError rt \<or> getError = googleGetError rt) \<longrightarrow>
      (\<exists>e. fst (publishCore w publish' ticks req paths getError) = Rejected e \<and>
           buildId e = None \<and> cloudOperationId e = None))"
proof (intro conjI impI)
  assume a: "validateParameteres codesignData projectDir = None \<and>
    generateCodesignFiles w rt cs deps codesignData projectDir = Rejected err"
  then obtain d where d: "codesignData = Some d"
    by (cases codesignData) (auto simp: validateParameteres_def)
  from a d show "buildId err = Some (uuid_v4 w)"
    by (auto simp: generateCodesignFiles_def Let_def split: promise.splits)
  from a d show "cloudOperationId err = Some (uuid_v4 w)"
    by (auto simp: generateCodesignFiles_def Let_def split: promise.splits)
next
  assume a: "fst (getPreparePackagePaths w paths) = Inr prepared \<and>
    publish' (req\<lparr>packagePaths := prepared\<rparr>) = Inr response \<and>
    fst (waitForServerOperationToFinish cloudPublishService w ticks (uuid_v4 w) response) \<noteq> Pending \<and>
    result_at w (resultUrl response) = Inr publishResult \<and>
    (code publishResult \<noteq> 0 \<or> errors publishResult \<noteq> []) \<and>
    (getError = itunesGetError rt \<or> getError = googleGetError rt)"
  with publishCore_after_wait[where w = w and paths = paths and prepared = prepared
      and publish' = publish' and req = req and response = response and ticks = ticks
      and getError = getError]
  show "\<exists>e. fst (publishCore w publish' ticks req paths getError) = Rejected e \<and>
           buildId e = None \<and> cloudOperationId e = None"
    by (auto simp: classifier_has_no_id)
qed

theorem operation_id_attached_by_codesign_witness:
  "generateCodesignFiles unavailable example_runtime example_constants example_codesign_deps
      (Some example_codesign_data) ''/tmp/app'' =
     Rejected ((Error ''Generation of codesign files failed.'')
        \<lparr>buildId := Some ''0b1d'', cloudOperationId := Some ''0b1d''\<rparr>)"
proof -
  have v: "validateParameteres (Some example_codesign_data) ''/tmp/app'' = None"
    by (simp add: validateParameteres_def example_codesign_data_def)
  have "\<exists>err. generateCodesignFiles unavailable example_runtime example_constants example_codesign_deps
      (Some example_codesign_data) ''/tmp/app'' = Rejected err \<and>
      message err = ''Generation of codesign files failed.'' \<and> stderr_of err = None \<and>
      stdout_of err = None \<and> teamNames err = None \<and> packagePaths_of err = None"
    by (simp add: generateCodesignFiles_def v executeGeneration_def Let_def
        example_codesign_deps_def Error_def)
  then obtain err where e: "generateCodesignFiles unavailable example_runtime example_constants
      example_codesign_deps (Some example_codesign_data) ''/tmp/app'' = Rejected err"
      "message err = ''Generation of codesign files failed.''" "stderr_of err = None"
      "stdout_of err = None" "teamNames err = None" "packagePaths_of err = None"
    by blast
  from operation_id_attached_by_codesign [of "Some example_codesign_data" "''/tmp/app''" unavailable
      example_runtime example_constants example_codesign_deps err] v e(1)
  have "buildId err = Some (uuid_v4 unavailable) \<and> cloudOperationId err = Some (uuid_v4 unavailable)"
    by blast
  with e show ?thesis by (simp add: Error_def unavailable_def)
qed

text \<open>
  Claim C4 as stated fails for the publish service: the error that \<open>publishToGooglePlay\<close>
  surfaces for a failed result object carries no identifier of the operation.
\<close>

theorem publish_error_without_operation_id:
  "fst (publishToGooglePlay google_world example_runtime example_publish_deps 1 example_google_data) =
     Rejected \<lparr>message = ''exit 1'' @ [CHR 0x0A] @ ''[!] Something failed'',
       stderr_of = Some ''[!] Something failed'', stdout_of = Some ''uploading'',
       teamNames = None, packagePaths_of = None, buildId = None, cloudOperationId = None\<rparr>"
proof -
  let ?req = "\<lparr>appIdentifier = ''org.nativescript.app'', req_credentials = Some (AuthJson ''{}''),
     packagePaths = [''app.apk''], platform = ''Android'', req_teamId = None, req_track = Some ''beta''\<rparr>"
  have prep: "fst (getPreparePackagePaths google_world [''app.apk'']) = Inr [''app.apk'']"
    by (simp add: google_world_def)
  have pub: "publish example_publish_deps (?req\<lparr>packagePaths := [''app.apk'']\<rparr>) = Inr example_response"
    by (simp add: example_publish_deps_def)
  have st: "fst (waitForServerOperationToFinish cloudPublishService google_world 1
      (uuid_v4 google_world) example_response) \<noteq> Pending"
    using wait_publish_success[of google_world example_response 0]
    by (simp add: google_world_def finished_with_def scripted_def unavailable_def
        OPERATION_STATUS_CHECK_INTERVAL_def)
  have res: "result_at google_world (resultUrl example_response) = Inr failed_result"
    by (simp add: google_world_def finished_with_def)
  have ge: "googleGetError example_runtime ?req failed_result =
      Error (''exit 1'' @ [CHR 0x0A] @ ''[!] Something failed'')"
    by (simp add: googleGetError_def getFormattedError_def match_all_def GENERAL_ERROR_REGEX_def
        literal_def failed_result_def example_runtime_def uniq_def mstart_def consume_def
        LineTerminator_def)
  from publishCore_after_wait [where w = google_world
         and publish' = "publish example_publish_deps" and req = ?req
         and prepared = "[''app.apk'']" and paths = "[''app.apk'']" and response = example_response
         and ticks = 1 and getError = "googleGetError example_runtime",
         OF prep pub st, unfolded res]
  have "fst (publishCore google_world (publish example_publish_deps) 1 ?req [''app.apk'']
      (googleGetError example_runtime)) =
      Rejected ((googleGetError example_runtime ?req failed_result)
         \<lparr>stderr_of := Some (stderr failed_result), stdout_of := Some (stdout failed_result)\<rparr>)"
    by (simp add: failed_result_def)
  then show ?thesis
    unfolding ge
    by (simp add: publishToGooglePlay_def validatePublishData_def example_google_data_def
        google_world_def example_publish_deps_def Error_def failed_result_def)
qed

section \<open>Properties of downloadServerResults\<close>

lemma downloadEach_all:
  "(\<forall>obj\<in>set objs. httpDownload w (fullPath obj) (path_join rt [dir, filename obj]) = None) \<Longrightarrow>
   downloadEach w rt dir objs names =
     (Inr (names @ map (\<lambda>obj. path_join rt [dir, filename obj]) objs),
      concat (map (\<lambda>obj. [CreateWriteStream (path_join rt [dir, filename obj]),
                             Download (fullPath obj) (path_join rt [dir, filename obj])]) objs))"
  by (induction objs arbitrary: names) (simp_all add: Let_def)

text \<open>
  Claim C7. When every transfer succeeds, \<open>downloadServerResults\<close> creates the
  directory of the service's policy and writes the items that \<open>getServerResults\<close>
  selects, in their order, each to \<open>path.join(destinationDir, filename)\<close>, and returns
  these paths in the same order. The codesign service selects the items whose
  disposition is the certificate or the provision one; the publish service selects none.
\<close>

theorem downloadServerResults_writes_filtered_items:
  "(getServerResults svc serverResult = Inr objs \<and>
    (\<forall>obj\<in>set objs. httpDownload w (fullPath obj)
        (path_join rt [getServerOperationOutputDirectory svc options, filename obj]) = None) \<longrightarrow>
    downloadServerResults svc w rt serverResult options =
     (Inr (map (\<lambda>obj. path_join rt [getServerOperationOutputDirectory svc options, filename obj]) objs),
      EnsureDirectoryExists (getServerOperationOutputDirectory svc options)
        # concat (map (\<lambda>obj.
            [CreateWriteStream (path_join rt [getServerOperationOutputDirectory svc options, filename obj]),
             Download (fullPath obj)
               (path_join rt [getServerOperationOutputDirectory svc options, filename obj])]) objs))) \<and>
   getServerResults (cloudCodesignService rt cs) serverResult =
     Inr (filter (\<lambda>b. disposition b = DISPOSITIONS_CERTIFICATE cs
                      \<or> disposition b = DISPOSITIONS_PROVISION cs) (buildItems serverResult)) \<and>
   getServerResults cloudPublishService serverResult = Inr []"
  by (simp add: downloadServerResults_def downloadEach_all cloudCodesignService_def
      codesign_getServerResults_def array_truthy_def cloudPublishService_def Let_def)

theorem downloadServerResults_writes_filtered_items_witness:
  "downloadServerResults (cloudCodesignService example_runtime example_constants) unavailable
      example_runtime example_build_result example_options =
     (Inr [''/tmp/app/codesign_files/ios/dev.p12'', ''/tmp/app/codesign_files/ios/dev.mobileprovision''],
      [EnsureDirectoryExists ''/tmp/app/codesign_files/ios'',
       CreateWriteStream ''/tmp/app/codesign_files/ios/dev.p12'',
       Download ''s3://items/dev.p12'' ''/tmp/app/codesign_files/ios/dev.p12'',
       CreateWriteStream ''/tmp/app/codesign_files/ios/dev.mobileprovision'',
       Download ''s3://items/dev.mobileprovision'' ''/tmp/app/codesign_files/ios/dev.mobileprovision''])"
proof -
  let ?svc = "cloudCodesignService example_runtime example_constants"
  let ?objs = "[example_item ''Certificate'' ''dev.p12'', example_item ''Provision'' ''dev.mobileprovision'']"
  have g: "getServerResults ?svc example_build_result = Inr ?objs"
    by (simp add: cloudCodesignService_def codesign_getServerResults_def array_truthy_def
        example_build_result_def example_constants_def example_item_def)
  have h: "\<forall>obj\<in>set ?objs. httpDownload unavailable (fullPath obj)
        (path_join example_runtime [getServerOperationOutputDirectory ?svc example_options, filename obj]) = None"
    by (simp add: unavailable_def)
  have d: "getServerOperationOutputDirectory ?svc example_options = ''/tmp/app/codesign_files/ios''"
    by (simp add: cloudCodesignService_def codesign_getServerOperationOutputDirectory_def
        example_runtime_def example_constants_def example_options_def)
  from downloadServerResults_writes_filtered_items [of ?svc example_build_result ?objs unavailable
      example_runtime example_options] g h
  have "downloadServerResults ?svc unavailable example_runtime example_build_result example_options =
     (Inr (map (\<lambda>obj. path_join example_runtime [getServerOperationOutputDirectory ?svc example_options, filename obj]) ?objs),
      EnsureDirectoryExists (getServerOperationOutputDirectory ?svc example_options)
        # concat (map (\<lambda>obj.
            [CreateWriteStream (path_join example_runtime [getServerOperationOutputDirectory ?svc example_options, filename obj]),
             Download (fullPath obj)
               (path_join example_runtime [getServerOperationOutputDirectory ?svc example_options, filename obj])]) ?objs))"
    by blast
  then show ?thesis unfolding d by (simp add: example_runtime_def example_item_def)
qed


section \<open>Properties of the error classification\<close>


lemma matched_fold: "matched (fold consume cs st) = matched st @ cs"
  by (induction cs arbitrary: st) (simp_all add: consume_def)

lemma bt_literal:
  "bt (literal m @ r) s st =
     (if starts_with s m then bt r (drop (length m) s) (fold consume m st) else None)"
proof (induction m arbitrary: s st)
  case Nil
  then show ?case by (simp add: literal_def)
next
  case (Cons a m)
  have l: "literal (a # m) @ r = One (Lit a) # (literal m @ r)" by (simp add: literal_def)
  show ?case unfolding l using Cons.IH by (cases s) simp_all
qed

lemma bt_star_end:
  "bt [Star AnyChar] s st =
     Some (fold consume (takeWhile nonLT s) st, dropWhile nonLT s)"
  by (induction s arbitrary: st) simp_all

lemma starts_with_take: "starts_with s m \<Longrightarrow> take (length m) s = m"
  by (induction s m rule: starts_with.induct) simp_all

lemma starts_with_append: "starts_with (m @ t) m"
  by (induction m) simp_all

lemma starts_with_takeWhile:
  "\<forall>c\<in>set m. nonLT c \<Longrightarrow> starts_with (takeWhile nonLT s) m = starts_with s m"
  by (induction s m rule: starts_with.induct) auto

lemma scan_skip:
  "bt r [] mstart = None \<Longrightarrow> scan r s k = scan r (drop k s) 0"
proof (induction s arbitrary: k)
  case Nil
  then show ?case by simp
next
  case (Cons c s)
  show ?case
  proof (cases k)
    case 0
    then show ?thesis by simp
  next
    case (Suc j)
    with Cons show ?thesis by simp
  qed
qed

lemma js_lines_split:
  "js_lines s = takeWhile nonLT s # (case dropWhile nonLT s of [] \<Rightarrow> [] | c # t \<Rightarrow> js_lines t)"
  by (induction s) (auto split: list.splits)

lemma from_marker_starts: "m \<noteq> [] \<Longrightarrow> starts_with l m \<Longrightarrow> from_marker m l = Some l"
  by (cases l; cases m) auto

lemma marker_match:
  assumes m: "m \<noteq> []" and lt: "\<forall>c\<in>set m. nonLT c" and sw: "starts_with s m"
  shows "\<exists>st. bt (literal m @ [Star AnyChar]) s mstart = Some (st, dropWhile nonLT s) \<and>
     matched st = takeWhile nonLT s"
proof -
  from sw have s: "s = m @ drop (length m) s"
    by (metis append_take_drop_id starts_with_take)
  let ?t = "drop (length m) s"
  have tw: "takeWhile nonLT s = m @ takeWhile nonLT ?t"
    using lt by (subst s) (simp add: takeWhile_append2)
  have dw: "dropWhile nonLT s = dropWhile nonLT ?t"
    using lt by (subst s) (simp add: dropWhile_append2)
  show ?thesis
    unfolding bt_literal bt_star_end using sw
    by (simp add: matched_fold tw dw mstart_def)
qed

lemma marker_no_match:
  "\<not> starts_with s m \<Longrightarrow> bt (literal m @ [Star AnyChar]) s mstart = None"
  by (simp add: bt_literal)

lemma match_all_marker:
  assumes m: "m \<noteq> []" and lt: "\<forall>c\<in>set m. nonLT c"
  shows "match_all (literal m @ [Star AnyChar]) s = List.map_filter (from_marker m) (js_lines s)"
proof (induction s rule: length_induct)
  case (1 s)
  let ?r = "literal m @ [Star AnyChar]"
  have e: "bt ?r [] mstart = None"
    using m by (cases m) (simp_all add: bt_literal)
  show ?case
  proof (cases s)
    case Nil
    with e m show ?thesis by (simp add: match_all_def List.map_filter_simps)
  next
    case (Cons c s')
    show ?thesis
    proof (cases "starts_with s m")
      case True
      from marker_match[OF m lt True] obtain st where
        st: "bt ?r s mstart = Some (st, dropWhile nonLT s)" "matched st = takeWhile nonLT s"
        by blast
      let ?L = "takeWhile nonLT s"
      let ?d = "dropWhile nonLT s"
      from True m lt have c: "nonLT c"
        using Cons by (cases m) auto
      then have L: "?L = c # takeWhile nonLT s'" using Cons by simp
      have dr: "drop (length ?L - 1) s' = ?d"
        using L Cons c by (simp add: dropWhile_eq_drop)
      have sc: "scan ?r s 0 = st # scan ?r ?d 0"
        using st Cons scan_skip[OF e, of s' "length ?L - 1"] dr by simp
      have fm: "from_marker m ?L = Some ?L"
        using from_marker_starts[OF m] starts_with_takeWhile[OF lt] True by simp
      show ?thesis
      proof (cases ?d)
        case Nil
        have j: "js_lines s = [?L]"
          by (subst js_lines_split) (simp only: Nil list.case)
        from sc st e fm show ?thesis
          unfolding j Nil by (simp add: match_all_def List.map_filter_simps)
      next
        case (Cons x t)
        then have x: "LineTerminator x"
          by (metis dropWhile_eq_Cons_conv)
        have "\<not> starts_with (x # t) m" using x lt m by (cases m) auto
        then have "scan ?r (x # t) 0 = scan ?r t 0"
          by (simp add: marker_no_match)
        moreover have "length t < length s"
          by (metis Cons length_dropWhile_le length_Cons less_Suc_eq_le less_le_trans lessI)
        with 1 have "match_all ?r t = List.map_filter (from_marker m) (js_lines t)" by blast
        moreover have j: "js_lines s = ?L # js_lines t"
          by (subst js_lines_split) (simp only: Cons list.case)
        ultimately show ?thesis using sc st fm
          unfolding j Cons by (simp add: match_all_def List.map_filter_simps)
      qed
    next
      case False
      then have sc: "scan ?r s 0 = scan ?r s' 0"
        using Cons by (simp add: marker_no_match)
      from 1 Cons have ih: "match_all ?r s' = List.map_filter (from_marker m) (js_lines s')"
        by simp
      show ?thesis
      proof (cases "LineTerminator c")
        case True
        with sc ih Cons m show ?thesis
          by (simp add: match_all_def List.map_filter_simps)
      next
        case nlt: False
        obtain l ls where l: "js_lines s' = l # ls" "l = takeWhile nonLT s'"
          using js_lines_split[of s'] by blast
        have "\<not> starts_with (c # l) m"
          using False starts_with_takeWhile[OF lt, of s] Cons nlt l by simp
        then have "from_marker m (c # l) = from_marker m l" by simp
        with sc ih Cons nlt l show ?thesis
          by (simp add: match_all_def List.map_filter_simps)
      qed
    qed
  qed
qed


lemma baseUniq_eq: "baseUniq xs acc = acc @ filter (\<lambda>y. y \<notin> set acc) (uniq xs)"
proof (induction xs arbitrary: acc)
  case Nil
  then show ?case by (simp add: uniq_def)
next
  case (Cons x xs)
  have u: "uniq (x # xs) = x # filter (\<lambda>y. y \<noteq> x) (uniq xs)"
    using Cons.IH[of "[x]"] by (simp add: uniq_def)
  show ?case
  proof (cases "x \<in> set acc")
    case True
    then have "filter (\<lambda>y. y \<notin> set acc) (filter (\<lambda>y. y \<noteq> x) (uniq xs))
        = filter (\<lambda>y. y \<notin> set acc) (uniq xs)"
      by (auto intro: filter_cong)
    with True Cons.IH[of acc] show ?thesis by (simp add: u)
  next
    case False
    have "filter (\<lambda>y. y \<notin> set (acc @ [x])) (uniq xs)
        = filter (\<lambda>y. y \<notin> set acc) (filter (\<lambda>y. y \<noteq> x) (uniq xs))"
      by (auto intro: filter_cong)
    with False Cons.IH[of "acc @ [x]"] show ?thesis by (simp add: u)
  qed
qed

lemma uniq_Nil: "uniq [] = []"
  by (simp add: uniq_def)

lemma uniq_Cons: "uniq (x # xs) = x # filter (\<lambda>y. y \<noteq> x) (uniq xs)"
  using baseUniq_eq[of xs "[x]"] by (simp add: uniq_def)

lemma set_uniq: "set (uniq xs) = set xs"
  by (induction xs) (auto simp: uniq_Nil uniq_Cons)

lemma distinct_uniq: "distinct (uniq xs)"
  by (induction xs) (auto simp: uniq_Nil uniq_Cons)

text \<open>
  Claim C9, as amended. For a marker pattern (a marker that is not empty and has no line
  terminator, followed by \<open>.*\<close>; both patterns of the service are of this form)
  \<open>getFormattedError\<close> returns, for the lines of the text in which the marker occurs, the
  part of the line from the first occurrence of the marker to the end of the line: these
  parts, not the lines, are deduplicated in the order of their first occurrence and
  joined with \<open>os.EOL\<close>. \<open>_.uniq\<close> keeps the first occurrence of every value: its result has
  no value twice, has the values of the array, and starts with the first value followed
  by what \<open>_.uniq\<close> keeps of the rest without that value.
\<close>

theorem getFormattedError_marker_parts:
  "(m \<noteq> [] \<and> (\<forall>c\<in>set m. \<not> LineTerminator c) \<longrightarrow>
      getFormattedError rt msg (literal m @ [Star AnyChar]) =
        join (EOL rt) (uniq (List.map_filter (from_marker m) (js_lines msg)))) \<and>
   getFormattedError rt msg GENERAL_ERROR_REGEX =
     join (EOL rt) (uniq (List.map_filter (from_marker ''[!]'') (js_lines msg))) \<and>
   getFormattedError rt msg ITMS_ERROR_REGEX =
     join (EOL rt) (uniq (List.map_filter (from_marker ''[Transporter Error Output]:'') (js_lines msg))) \<and>
   distinct (uniq xs) \<and> set (uniq xs) = set xs \<and>
   uniq (x # xs) = x # filter (\<lambda>y. y \<noteq> x) (uniq xs)"
proof -
  have g: "match_all GENERAL_ERROR_REGEX msg = List.map_filter (from_marker ''[!]'') (js_lines msg)"
    unfolding GENERAL_ERROR_REGEX_def by (rule match_all_marker) (simp_all add: LineTerminator_def)
  have i: "match_all ITMS_ERROR_REGEX msg =
      List.map_filter (from_marker ''[Transporter Error Output]:'') (js_lines msg)"
    unfolding ITMS_ERROR_REGEX_def by (rule match_all_marker) (simp_all add: LineTerminator_def)
  show ?thesis
    using match_all_marker[of m msg]
    by (simp add: getFormattedError_def g i distinct_uniq set_uniq uniq_Cons)
qed

theorem getFormattedError_marker_parts_witness:
  "getFormattedError example_runtime
     ''[!] Something failed\<newline>ok\<newline>[!] Something failed\<newline>done\<newline>[!] Something failed''
     GENERAL_ERROR_REGEX = ''[!] Something failed''"
proof -
  have h: "(''[!]''::string) \<noteq> [] \<and> (\<forall>c\<in>set ''[!]''. \<not> LineTerminator c)"
    by (simp add: LineTerminator_def)
  have "getFormattedError example_runtime
     ''[!] Something failed\<newline>ok\<newline>[!] Something failed\<newline>done\<newline>[!] Something failed''
     (literal ''[!]'' @ [Star AnyChar]) = join (EOL example_runtime) (uniq (List.map_filter (from_marker ''[!]'')
       (js_lines ''[!] Something failed\<newline>ok\<newline>[!] Something failed\<newline>done\<newline>[!] Something failed'')))"
    by (rule getFormattedError_marker_parts [THEN conjunct1, THEN mp, OF h])
  then show ?thesis
    unfolding GENERAL_ERROR_REGEX_def
    by (simp add: LineTerminator_def List.map_filter_simps uniq_def example_runtime_def)
qed

text \<open>
  Claim C9 as stated fails where a marker does not start its line: of two lines that
  differ before the marker and agree from it on, \<open>getFormattedError\<close> returns the common
  part once, and not the two lines.
\<close>

theorem getFormattedError_not_whole_lines:
  "getFormattedError example_runtime ''1 [!] a\<newline>2 [!] a'' GENERAL_ERROR_REGEX = ''[!] a'' \<and>
   spec_getFormattedError example_runtime ''1 [!] a\<newline>2 [!] a'' GENERAL_ERROR_REGEX
     = ''1 [!] a\<newline>2 [!] a'' \<and>
   getFormattedError example_runtime ''1 [!] a\<newline>2 [!] a'' GENERAL_ERROR_REGEX \<noteq>
   spec_getFormattedError example_runtime ''1 [!] a\<newline>2 [!] a'' GENERAL_ERROR_REGEX"
proof -
  have g: "\<And>msg. match_all GENERAL_ERROR_REGEX msg = List.map_filter (from_marker ''[!]'') (js_lines msg)"
    unfolding GENERAL_ERROR_REGEX_def by (rule match_all_marker) (simp_all add: LineTerminator_def)
  have a: "getFormattedError example_runtime ''1 [!] a\<newline>2 [!] a'' GENERAL_ERROR_REGEX = ''[!] a''"
    by (simp add: getFormattedError_def g LineTerminator_def List.map_filter_simps uniq_def
        example_runtime_def)
  have b: "spec_getFormattedError example_runtime ''1 [!] a\<newline>2 [!] a'' GENERAL_ERROR_REGEX
     = ''1 [!] a\<newline>2 [!] a''"
    by (simp add: spec_getFormattedError_def g LineTerminator_def List.map_filter_simps uniq_def
        example_runtime_def)
  show ?thesis unfolding a b by simp
qed


lemma in_group_consume: "in_group (consume c st) = in_group st"
  by (simp add: consume_def)

lemma group1_consume:
  "group1 (consume c st) =
     (if in_group st then map_option (\<lambda>g. g @ [c]) (group1 st) else group1 st)"
  by (simp add: consume_def)

lemma in_group_fold: "in_group (fold consume cs st) = in_group st"
  by (induction cs arbitrary: st) (simp_all add: consume_def)

lemma group1_fold:
  "group1 (fold consume cs st) =
     (if in_group st then map_option (\<lambda>g. g @ cs) (group1 st) else group1 st)"
proof (induction cs arbitrary: st)
  case Nil
  then show ?case by (simp add: option.map_ident)
next
  case (Cons c cs)
  show ?case
    by (simp add: Cons.IH) (simp add: consume_def option.map_comp o_def)
qed

lemma bt_Star_None:
  "(\<forall>e f. s = e @ f \<and> (\<forall>c\<in>set e. atom_ok a c) \<longrightarrow> bt r f (fold consume e st) = None) \<Longrightarrow>
   bt (Star a # r) s st = None"
proof (induction s arbitrary: st)
  case Nil
  then show ?case by simp
next
  case (Cons c s)
  from Cons.prems have here: "bt r (c # s) st = None" by force
  show ?case
  proof (cases "atom_ok a c")
    case True
    have "\<forall>e f. s = e @ f \<and> (\<forall>x\<in>set e. atom_ok a x) \<longrightarrow>
        bt r f (fold consume e (consume c st)) = None"
    proof (intro allI impI)
      fix e f assume "s = e @ f \<and> (\<forall>x\<in>set e. atom_ok a x)"
      with True have "c # s = (c # e) @ f \<and> (\<forall>x\<in>set (c # e). atom_ok a x)" by simp
      with Cons.prems have "bt r f (fold consume (c # e) st) = None" by blast
      then show "bt r f (fold consume e (consume c st)) = None" by simp
    qed
    from Cons.IH[OF this] True here show ?thesis by simp
  next
    case False
    with here show ?thesis by simp
  qed
qed

lemma bt_Star_split:
  assumes "\<forall>c\<in>set p. atom_ok a c"
    and "bt r q (fold consume p st) = Some res"
    and "\<forall>e f. q = e @ f \<and> e \<noteq> [] \<and> (\<forall>c\<in>set e. atom_ok a c) \<longrightarrow>
           bt r f (fold consume (p @ e) st) = None"
  shows "bt (Star a # r) (p @ q) st = Some res"
  using assms
proof (induction p arbitrary: st)
  case Nil
  show ?case
  proof (cases q)
    case Nil
    with Nil.prems show ?thesis by simp
  next
    case (Cons c q')
    show ?thesis
    proof (cases "atom_ok a c")
      case True
      have "\<forall>e f. q' = e @ f \<and> (\<forall>x\<in>set e. atom_ok a x) \<longrightarrow>
          bt r f (fold consume e (consume c st)) = None"
      proof (intro allI impI)
        fix e f assume "q' = e @ f \<and> (\<forall>x\<in>set e. atom_ok a x)"
        with True Cons have "q = (c # e) @ f \<and> c # e \<noteq> [] \<and> (\<forall>x\<in>set (c # e). atom_ok a x)"
          by simp
        with Nil.prems(3) have "bt r f (fold consume ([] @ (c # e)) st) = None" by blast
        then show "bt r f (fold consume e (consume c st)) = None" by simp
      qed
      from bt_Star_None[OF this] have "bt (Star a # r) q' (consume c st) = None" .
      with True Cons Nil.prems(2) show ?thesis by simp
    next
      case False
      with Cons Nil.prems(2) show ?thesis by simp
    qed
  qed
next
  case (Cons c p)
  have "bt (Star a # r) (p @ q) (consume c st) = Some res"
  proof (rule Cons.IH)
    show "\<forall>x\<in>set p. atom_ok a x" using Cons.prems(1) by simp
    show "bt r q (fold consume p (consume c st)) = Some res" using Cons.prems(2) by simp
    show "\<forall>e f. q = e @ f \<and> e \<noteq> [] \<and> (\<forall>x\<in>set e. atom_ok a x) \<longrightarrow>
        bt r f (fold consume (p @ e) (consume c st)) = None"
      using Cons.prems(3) by simp
  qed
  with Cons.prems(1) show ?case by simp
qed

lemma no_later_start:
  assumes "u @ rest = e @ f"
    and "\<forall>c\<in>set u. c \<noteq> a"
    and "\<forall>c\<in>set e. nonLT c"
    and "rest = [] \<or> LineTerminator (hd rest)"
    and "nonLT a"
  shows "\<not> starts_with f (a # m)"
  using assms(1,2,3)
proof (induction e arbitrary: u)
  case Nil
  show ?case
  proof (cases u)
    case Nil
    with Nil.prems assms(4,5) show ?thesis by (cases rest) auto
  next
    case (Cons c u')
    with Nil.prems show ?thesis by auto
  qed
next
  case (Cons c e)
  show ?case
  proof (cases u)
    case Nil
    with Cons.prems assms(4) show ?thesis by (cases rest) auto
  next
    case (Cons c' u')
    with Cons.prems have "u' @ rest = e @ f" "\<forall>c\<in>set u'. c \<noteq> a" "\<forall>c\<in>set e. nonLT c"
      by auto
    then show ?thesis by (rule Cons.IH)
  qed
qed

lemma bt_literal_end:
  "bt (literal m) s st = (if starts_with s m then Some (fold consume m st, drop (length m) s) else None)"
  using bt_literal[of m "[]" s st] by simp

lemma starts_with_drop: "starts_with (m @ t) m \<and> drop (length m) (m @ t) = t"
  by (simp add: starts_with_append)



lemma team_tail:
  assumes tid: "\<forall>c\<in>set tid. nonLT c" and rest: "line_end rest"
  shows "bt (Star AnyChar # literal '')'') (tid @ '')'' @ rest) st =
     Some (fold consume '')'' (fold consume tid st), rest)"
proof (rule bt_Star_split)
  show "\<forall>c\<in>set tid. atom_ok AnyChar c" using tid by simp
  show "bt (literal '')'') ('')'' @ rest) (fold consume tid st) =
      Some (fold consume '')'' (fold consume tid st), rest)"
    by (simp add: bt_literal_end)
  show "\<forall>e f. '')'' @ rest = e @ f \<and> e \<noteq> [] \<and> (\<forall>c\<in>set e. atom_ok AnyChar c) \<longrightarrow>
      bt (literal '')'') f (fold consume (tid @ e) st) = None"
  proof (intro allI impI)
    fix e f assume a: "'')'' @ rest = e @ f \<and> e \<noteq> [] \<and> (\<forall>c\<in>set e. atom_ok AnyChar c)"
    then obtain e' where e: "e = CHR '')'' # e'" by (cases e) auto
    with a have "[] @ rest = e' @ f" "\<forall>c\<in>set e'. nonLT c" by auto
    from no_later_start[OF this(1) _ this(2), of "CHR '')''" "[]"] rest
    have "\<not> starts_with f '')''" by (simp add: line_end_def LineTerminator_def)
    then show "bt (literal '')'') f (fold consume (tid @ e) st) = None"
      by (simp add: bt_literal_end)
  qed
qed

lemma team_after_name:
  assumes tid: "\<forall>c\<in>set tid. nonLT c" and rest: "line_end rest"
  shows "bt (GroupClose # (literal ''\" ('' @ (Star AnyChar # literal '')'')))
          (''\" ('' @ tid @ '')'' @ rest) st =
     Some (fold consume '')'' (fold consume tid (fold consume ''\" ('' (st\<lparr>in_group := False\<rparr>))), rest)"
  using team_tail[OF tid rest] starts_with_drop[of "''\" (''" "tid @ '')'' @ rest"]
  by (simp add: bt_literal del: fold_simps)

lemma team_name:
  assumes name: "\<forall>c\<in>set name. nonLT c"
    and tid: "\<forall>c\<in>set tid. nonLT c \<and> c \<noteq> CHR 0x22" and rest: "line_end rest"
  shows "bt (Star AnyChar # GroupClose # (literal ''\" ('' @ (Star AnyChar # literal '')'')))
          (name @ ''\" ('' @ tid @ '')'' @ rest) st =
     Some (fold consume '')'' (fold consume tid (fold consume ''\" (''
            ((fold consume name st)\<lparr>in_group := False\<rparr>))), rest)"
proof (rule bt_Star_split)
  show "\<forall>c\<in>set name. atom_ok AnyChar c" using name by simp
  show "bt (GroupClose # (literal ''\" ('' @ (Star AnyChar # literal '')'')))
          (''\" ('' @ tid @ '')'' @ rest) (fold consume name st) =
     Some (fold consume '')'' (fold consume tid (fold consume ''\" (''
            ((fold consume name st)\<lparr>in_group := False\<rparr>))), rest)"
    using tid by (intro team_after_name rest) simp
  show "\<forall>e f. ''\" ('' @ tid @ '')'' @ rest = e @ f \<and> e \<noteq> [] \<and> (\<forall>c\<in>set e. atom_ok AnyChar c) \<longrightarrow>
      bt (GroupClose # (literal ''\" ('' @ (Star AnyChar # literal '')''))) f
        (fold consume (name @ e) st) = None"
  proof (intro allI impI)
    fix e f assume a: "''\" ('' @ tid @ '')'' @ rest = e @ f \<and> e \<noteq> [] \<and> (\<forall>c\<in>set e. atom_ok AnyChar c)"
    then obtain e' where e: "e = CHR 0x22 # e'" by (cases e) auto
    with a have 1: "('' ('' @ tid @ '')'') @ rest = e' @ f" and 2: "\<forall>c\<in>set e'. nonLT c" by auto
    have 3: "\<forall>c\<in>set ('' ('' @ tid @ '')''). c \<noteq> CHR 0x22" using tid by auto
    have "\<not> starts_with f (CHR 0x22 # '' ('')"
      using no_later_start[OF 1 3 2, of "'' (''"] rest by (simp add: line_end_def LineTerminator_def)
    then have "\<not> starts_with f ''\" (''" by simp
    then show "bt (GroupClose # (literal ''\" ('' @ (Star AnyChar # literal '')''))) f
        (fold consume (name @ e) st) = None"
      by (simp add: bt_literal del: fold_simps)
  qed
qed

lemma IOS_TEAMS_REGEX_eq:
  "IOS_TEAMS_REGEX = Plus Digit # (literal '') \"'' @ (GroupOpen # Star AnyChar # GroupClose
      # (literal ''\" ('' @ (Star AnyChar # literal '')''))))"
  by (simp add: IOS_TEAMS_REGEX_def)

lemma team_line_match:
  assumes n: "n \<noteq> []" "\<forall>c\<in>set n. c \<in> set ''0123456789''"
    and name: "\<forall>c\<in>set name. nonLT c"
    and tid: "\<forall>c\<in>set tid. nonLT c \<and> c \<noteq> CHR 0x22" and rest: "line_end rest"
  shows "\<exists>st. bt IOS_TEAMS_REGEX (team_line n name tid @ rest) mstart = Some (st, rest) \<and>
     matched st = team_line n name tid \<and> group1 st = Some name"
proof -
  from n obtain d n' where dn: "n = d # n'" by (cases n) auto
  let ?R2 = "Star AnyChar # GroupClose # (literal ''\" ('' @ (Star AnyChar # literal '')''))"
  let ?R1 = "literal '') \"'' @ (GroupOpen # ?R2)"
  let ?q = "'') \"'' @ name @ ''\" ('' @ tid @ '')'' @ rest"
  let ?s1 = "fold consume n' (consume d mstart)"
  let ?s2 = "(fold consume '') \"'' ?s1)\<lparr>group1 := Some [], in_group := True\<rparr>"
  let ?fin = "fold consume '')'' (fold consume tid (fold consume ''\" (''
            ((fold consume name ?s2)\<lparr>in_group := False\<rparr>)))"
  have r1: "bt ?R1 ?q ?s1 = Some (?fin, rest)"
    using team_name[OF name tid rest, of ?s2]
      starts_with_drop[of "'') \"''" "name @ ''\" ('' @ tid @ '')'' @ rest"]
    by (simp add: bt_literal del: fold_simps)
  have star: "bt (Star Digit # ?R1) (n' @ ?q) (consume d mstart) = Some (?fin, rest)"
  proof (rule bt_Star_split)
    show "\<forall>c\<in>set n'. atom_ok Digit c" using n dn by simp
    show "bt ?R1 ?q ?s1 = Some (?fin, rest)" by (rule r1)
    show "\<forall>e f. ?q = e @ f \<and> e \<noteq> [] \<and> (\<forall>c\<in>set e. atom_ok Digit c) \<longrightarrow>
        bt ?R1 f (fold consume (n' @ e) (consume d mstart)) = None"
    proof (intro allI impI)
      fix e f assume a: "?q = e @ f \<and> e \<noteq> [] \<and> (\<forall>c\<in>set e. atom_ok Digit c)"
      then obtain e' where "e = CHR '')'' # e'" by (cases e) auto
      with a have False by simp
      then show "bt ?R1 f (fold consume (n' @ e) (consume d mstart)) = None" ..
    qed
  qed
  have d: "atom_ok Digit d" using n dn by simp
  have tl: "team_line n name tid @ rest = d # (n' @ ?q)"
    by (simp add: team_line_def dn)
  have b: "bt IOS_TEAMS_REGEX (team_line n name tid @ rest) mstart = Some (?fin, rest)"
    unfolding tl IOS_TEAMS_REGEX_eq using d star by (simp del: fold_simps atom_ok.simps)
  have m: "matched ?fin = team_line n name tid"
    by (simp add: matched_fold team_line_def dn mstart_def consume_def del: fold_simps)
  have g: "group1 ?fin = Some name"
    by (simp add: group1_fold in_group_fold group1_consume in_group_consume)
  from b m g show ?thesis by blast
qed


lemma bt_sound:
  "bt r s st = Some (st', rest) \<Longrightarrow>
   \<exists>cs. s = cs @ rest \<and> (\<forall>a. One (Lit a) \<in> set r \<longrightarrow> a \<in> set cs) \<and>
     (\<forall>c\<in>set cs. \<exists>it\<in>set r. \<exists>x\<in>set (item_atoms it). atom_ok x c)"
proof (induction r s st arbitrary: st' rest rule: bt.induct)
  case (1 s st)
  then show ?case by simp
next
  case (2 a r st)
  then show ?case by simp
next
  case (3 a r c s st)
  then have ok: "atom_ok a c" and b: "bt r s (consume c st) = Some (st', rest)"
    by (auto split: if_splits)
  from "3.IH"[OF ok b] obtain cs where cs: "s = cs @ rest"
    "\<forall>a. One (Lit a) \<in> set r \<longrightarrow> a \<in> set cs"
    "\<forall>c\<in>set cs. \<exists>it\<in>set r. \<exists>x\<in>set (item_atoms it). atom_ok x c" by blast
  have "c # s = (c # cs) @ rest" using cs(1) by simp
  moreover have "\<forall>a'. One (Lit a') \<in> set (One a # r) \<longrightarrow> a' \<in> set (c # cs)"
    using cs(2) ok by auto
  moreover have "\<forall>x\<in>set (c # cs). \<exists>it\<in>set (One a # r). \<exists>y\<in>set (item_atoms it). atom_ok y x"
    using cs(3) ok by auto
  ultimately show ?case by blast
next
  case (4 a r st)
  then have b: "bt r [] st = Some (st', rest)" by simp
  from "4.IH"[OF b] show ?case by auto
next
  case (5 a r c s st)
  show ?case
  proof (cases "atom_ok a c \<and> bt (Star a # r) s (consume c st) \<noteq> None")
    case True
    then have ok: "atom_ok a c" and b: "bt (Star a # r) s (consume c st) = Some (st', rest)"
      using "5.prems" by (auto split: option.splits)
    from "5.IH"(1)[OF ok b] obtain cs where cs: "s = cs @ rest"
      "\<forall>a'. One (Lit a') \<in> set (Star a # r) \<longrightarrow> a' \<in> set cs"
      "\<forall>c\<in>set cs. \<exists>it\<in>set (Star a # r). \<exists>x\<in>set (item_atoms it). atom_ok x c" by blast
    have "c # s = (c # cs) @ rest" using cs(1) by simp
    moreover have "\<forall>a'. One (Lit a') \<in> set (Star a # r) \<longrightarrow> a' \<in> set (c # cs)"
      using cs(2) by auto
    moreover have "\<forall>x\<in>set (c # cs). \<exists>it\<in>set (Star a # r). \<exists>y\<in>set (item_atoms it). atom_ok y x"
      using cs(3) ok by auto
    ultimately show ?thesis by blast
  next
    case False
    then have b: "bt r (c # s) st = Some (st', rest)"
      using "5.prems" by (auto split: if_splits option.splits)
    have "\<exists>cs. c # s = cs @ rest \<and> (\<forall>a. One (Lit a) \<in> set r \<longrightarrow> a \<in> set cs) \<and>
       (\<forall>c\<in>set cs. \<exists>it\<in>set r. \<exists>x\<in>set (item_atoms it). atom_ok x c)"
    proof (cases "atom_ok a c")
      case True
      with False have "bt (Star a # r) s (consume c st) = None" by blast
      from "5.IH"(2)[OF True this b] show ?thesis .
    next
      case False
      from "5.IH"(3)[OF False b] show ?thesis .
    qed
    then show ?thesis by auto
  qed
next
  case (6 a r st)
  then show ?case by simp
next
  case (7 a r c s st)
  then have ok: "atom_ok a c" and b: "bt (Star a # r) s (consume c st) = Some (st', rest)"
    by (auto split: if_splits)
  from "7.IH"[OF ok b] obtain cs where cs: "s = cs @ rest"
    "\<forall>a'. One (Lit a') \<in> set (Star a # r) \<longrightarrow> a' \<in> set cs"
    "\<forall>c\<in>set cs. \<exists>it\<in>set (Star a # r). \<exists>x\<in>set (item_atoms it). atom_ok x c" by blast
  have "c # s = (c # cs) @ rest" using cs(1) by simp
  moreover have "\<forall>a'. One (Lit a') \<in> set (Plus a # r) \<longrightarrow> a' \<in> set (c # cs)"
    using cs(2) by auto
  moreover have "\<forall>x\<in>set (c # cs). \<exists>it\<in>set (Plus a # r). \<exists>y\<in>set (item_atoms it). atom_ok y x"
  proof
    fix x assume "x \<in> set (c # cs)"
    then consider "x = c" | "x \<in> set cs" by auto
    then show "\<exists>it\<in>set (Plus a # r). \<exists>y\<in>set (item_atoms it). atom_ok y x"
    proof cases
      case 1
      with ok show ?thesis by auto
    next
      case 2
      with cs(3) obtain it y where "it \<in> set (Star a # r)" "y \<in> set (item_atoms it)" "atom_ok y x"
        by blast
      then show ?thesis by (cases "it = Star a") auto
    qed
  qed
  ultimately show ?case by blast
next
  case (8 r s st)
  then have b: "bt r s (st\<lparr>group1 := Some [], in_group := True\<rparr>) = Some (st', rest)" by simp
  from "8.IH"[OF b] show ?case by auto
next
  case (9 r s st)
  then have b: "bt r s (st\<lparr>in_group := False\<rparr>) = Some (st', rest)" by simp
  from "9.IH"[OF b] show ?case by auto
qed

lemma ios_needs_paren:
  assumes "bt IOS_TEAMS_REGEX s st = Some (st', rest)"
  shows "CHR '')'' \<in> set (takeWhile nonLT s)"
proof -
  from bt_sound[OF assms] obtain cs where cs: "s = cs @ rest"
    "\<forall>a. One (Lit a) \<in> set IOS_TEAMS_REGEX \<longrightarrow> a \<in> set cs"
    "\<forall>c\<in>set cs. \<exists>it\<in>set IOS_TEAMS_REGEX. \<exists>x\<in>set (item_atoms it). atom_ok x c" by blast
  have "One (Lit CHR '')'') \<in> set IOS_TEAMS_REGEX"
    by (simp add: IOS_TEAMS_REGEX_def literal_def)
  with cs(2) have p: "CHR '')'' \<in> set cs" by blast
  have "\<forall>it\<in>set IOS_TEAMS_REGEX. \<forall>x\<in>set (item_atoms it). \<forall>c. atom_ok x c \<longrightarrow> nonLT c"
    by (simp add: IOS_TEAMS_REGEX_def literal_def LineTerminator_def) 
  with cs(3) have "\<forall>c\<in>set cs. nonLT c" by blast
  then have "takeWhile nonLT s = cs @ takeWhile nonLT rest"
    unfolding cs(1) by (simp add: takeWhile_append2)
  with p show ?thesis by simp
qed

lemma ios_empty: "bt IOS_TEAMS_REGEX [] mstart = None"
  by (simp add: IOS_TEAMS_REGEX_def)

lemma ios_at_terminator: "LineTerminator x \<Longrightarrow> bt IOS_TEAMS_REGEX (x # t) mstart = None"
  by (auto simp: IOS_TEAMS_REGEX_def LineTerminator_def)

lemma takeWhile_line: "\<forall>c\<in>set l. nonLT c \<Longrightarrow> line_end rest \<Longrightarrow> takeWhile nonLT (l @ rest) = l"
  by (cases rest) (simp_all add: line_end_def takeWhile_append2)

lemma scan_other:
  "\<forall>c\<in>set l. nonLT c \<and> c \<noteq> CHR '')'' \<Longrightarrow> line_end rest \<Longrightarrow>
   scan IOS_TEAMS_REGEX (l @ rest) 0 = scan IOS_TEAMS_REGEX rest 0"
proof (induction l)
  case Nil
  then show ?case by simp
next
  case (Cons c l)
  have "takeWhile nonLT ((c # l) @ rest) = c # l"
    using Cons.prems by (intro takeWhile_line) auto
  with Cons.prems(1) have np: "CHR '')'' \<notin> set (takeWhile nonLT ((c # l) @ rest))" by auto
  have "bt IOS_TEAMS_REGEX ((c # l) @ rest) mstart = None"
  proof (rule ccontr)
    assume "bt IOS_TEAMS_REGEX ((c # l) @ rest) mstart \<noteq> None"
    then obtain st' r where "bt IOS_TEAMS_REGEX ((c # l) @ rest) mstart = Some (st', r)" by auto
    from ios_needs_paren[OF this] np show False by blast
  qed
  with Cons show ?case by simp
qed

lemma scan_team:
  assumes n: "n \<noteq> []" "\<forall>c\<in>set n. c \<in> set ''0123456789''"
    and name: "\<forall>c\<in>set name. nonLT c"
    and tid: "\<forall>c\<in>set tid. nonLT c \<and> c \<noteq> CHR 0x22" and rest: "line_end rest"
  shows "\<exists>st. scan IOS_TEAMS_REGEX (team_line n name tid @ rest) 0 = st # scan IOS_TEAMS_REGEX rest 0
     \<and> group1 st = Some name"
proof -
  from team_line_match[OF assms] obtain st where
    st: "bt IOS_TEAMS_REGEX (team_line n name tid @ rest) mstart = Some (st, rest)"
      "matched st = team_line n name tid" "group1 st = Some name" by blast
  from n obtain d n' where dn: "n = d # n'" by (cases n) auto
  then obtain t where t: "team_line n name tid = d # t" by (simp add: team_line_def)
  have "scan IOS_TEAMS_REGEX (team_line n name tid @ rest) 0 =
      st # scan IOS_TEAMS_REGEX (t @ rest) (length (team_line n name tid) - 1)"
    using st(1,2) unfolding t by simp
  also have "scan IOS_TEAMS_REGEX (t @ rest) (length (team_line n name tid) - 1)
      = scan IOS_TEAMS_REGEX (drop (length (team_line n name tid) - 1) (t @ rest)) 0"
    by (rule scan_skip[OF ios_empty])
  also have "drop (length (team_line n name tid) - 1) (t @ rest) = rest"
    unfolding t by simp
  finally show ?thesis using st(3) by blast
qed

lemma scan_after_line:
  "scan IOS_TEAMS_REGEX (if ls = [] then [] else CHR 0x0A # join [CHR 0x0A] (map render_line ls)) 0
     = scan IOS_TEAMS_REGEX (join [CHR 0x0A] (map render_line ls)) 0"
  by (cases ls) (simp_all add: ios_empty ios_at_terminator LineTerminator_def)

lemma join_lines:
  "join [CHR 0x0A] (map render_line (l # ls)) =
     render_line l @ (if ls = [] then [] else CHR 0x0A # join [CHR 0x0A] (map render_line ls))"
  by (cases ls) simp_all

lemma exec_groups_team_lines:
  "\<forall>l\<in>set ls. well_formed_line l \<Longrightarrow>
   exec_groups IOS_TEAMS_REGEX (join [CHR 0x0A] (map render_line ls)) = team_names_of ls"
proof (induction ls)
  case Nil
  then show ?case by (simp add: exec_groups_def ios_empty)
next
  case (Cons l ls)
  let ?rest = "if ls = [] then [] else CHR 0x0A # join [CHR 0x0A] (map render_line ls)"
  have le: "line_end ?rest" by (simp add: line_end_def LineTerminator_def)
  from Cons have ih: "exec_groups IOS_TEAMS_REGEX (join [CHR 0x0A] (map render_line ls)) = team_names_of ls"
    by simp
  show ?case
  proof (cases l)
    case (TeamLine n name tid)
    with Cons.prems have wf: "n \<noteq> []" "\<forall>c\<in>set n. c \<in> set ''0123456789''"
      "\<forall>c\<in>set name. nonLT c" "\<forall>c\<in>set tid. nonLT c \<and> c \<noteq> CHR 0x22"
      by auto
    from scan_team[OF wf le] obtain st where
      "scan IOS_TEAMS_REGEX (team_line n name tid @ ?rest) 0 = st # scan IOS_TEAMS_REGEX ?rest 0"
      "group1 st = Some name" by blast
    with ih TeamLine show ?thesis
      unfolding join_lines exec_groups_def scan_after_line by simp
  next
    case (OtherLine x)
    with Cons.prems have wf: "\<forall>c\<in>set x. nonLT c \<and> c \<noteq> CHR '')''" by simp
    from scan_other[OF wf le] ih OtherLine show ?thesis
      unfolding join_lines exec_groups_def scan_after_line by simp
  qed
qed

text \<open>
  A match of a pattern with a literal is not empty and ends after its start: \<open>lastIndex\<close>
  grows with every match, and the \<open>exec\<close> loop over the team pattern comes to its end.
\<close>

lemma matched_consume: "matched (consume c st) = matched st @ [c]"
  by (simp add: consume_def)

lemma bt_matched:
  "bt r s st = Some (st', rest) \<Longrightarrow> \<exists>cs. s = cs @ rest \<and> matched st' = matched st @ cs"
proof (induction r s st arbitrary: st' rest rule: bt.induct)
  case (3 a r c s st)
  then have ok: "atom_ok a c" and b: "bt r s (consume c st) = Some (st', rest)"
    by (auto split: if_splits)
  from "3.IH"[OF ok b] obtain cs where "s = cs @ rest" "matched st' = matched (consume c st) @ cs"
    by blast
  then have "c # s = (c # cs) @ rest \<and> matched st' = matched st @ (c # cs)"
    by (simp add: matched_consume)
  then show ?case by blast
next
  case (5 a r c s st)
  show ?case
  proof (cases "atom_ok a c \<and> bt (Star a # r) s (consume c st) \<noteq> None")
    case True
    then have ok: "atom_ok a c" and b: "bt (Star a # r) s (consume c st) = Some (st', rest)"
      using "5.prems" by (auto split: option.splits)
    from "5.IH"(1)[OF ok b] obtain cs where "s = cs @ rest" "matched st' = matched (consume c st) @ cs"
      by blast
    then have "c # s = (c # cs) @ rest \<and> matched st' = matched st @ (c # cs)"
      by (simp add: matched_consume)
    then show ?thesis by blast
  next
    case False
    then have b: "bt r (c # s) st = Some (st', rest)"
      using "5.prems" by (auto split: if_splits option.splits)
    show ?thesis
    proof (cases "atom_ok a c")
      case True
      with False have "bt (Star a # r) s (consume c st) = None" by blast
      from "5.IH"(2)[OF True this b] show ?thesis .
    next
      case False
      from "5.IH"(3)[OF False b] show ?thesis .
    qed
  qed
next
  case (7 a r c s st)
  then have ok: "atom_ok a c" and b: "bt (Star a # r) s (consume c st) = Some (st', rest)"
    by (auto split: if_splits)
  from "7.IH"[OF ok b] obtain cs where "s = cs @ rest" "matched st' = matched (consume c st) @ cs"
    by blast
  then have "c # s = (c # cs) @ rest \<and> matched st' = matched st @ (c # cs)"
    by (simp add: matched_consume)
  then show ?case by blast
next
  case (8 r s st)
  then have "bt r s (st\<lparr>group1 := Some [], in_group := True\<rparr>) = Some (st', rest)" by simp
  from "8.IH"[OF this] show ?case by simp
next
  case (9 r s st)
  then have "bt r s (st\<lparr>in_group := False\<rparr>) = Some (st', rest)" by simp
  from "9.IH"[OF this] show ?case by simp
qed simp_all

lemma bt_nonempty:
  assumes "bt r s mstart = Some (st, rest)" and "One (Lit a) \<in> set r"
  shows "matched st \<noteq> [] \<and> length rest < length s"
proof -
  from bt_sound[OF assms(1)] assms(2) obtain cs where cs: "s = cs @ rest" "a \<in> set cs" by blast
  from bt_matched[OF assms(1)] obtain cs' where cs': "s = cs' @ rest" "matched st = matched mstart @ cs'"
    by blast
  from cs cs' have "cs' = cs" by simp
  with cs cs' show ?thesis by (auto simp: mstart_def)
qed

lemma patterns_have_a_literal:
  "One (Lit CHR '')'') \<in> set IOS_TEAMS_REGEX"
  "One (Lit CHR ''['') \<in> set GENERAL_ERROR_REGEX"
  "One (Lit CHR ''['') \<in> set ITMS_ERROR_REGEX"
  by (simp_all add: IOS_TEAMS_REGEX_def GENERAL_ERROR_REGEX_def ITMS_ERROR_REGEX_def literal_def)

text \<open>
  Claim C6. When \<open>stderr\<close> of the result contains the marker of several teams, the error
  of the iTunes Connect classifier, and the error thrown with \<open>stderr\<close> and \<open>stdout\<close>
  attached, carries as \<open>teamNames\<close> the first groups of the matches of the team pattern in
  \<open>stdout\<close>, in their order, and as \<open>packagePaths\<close> the package paths of the request. For a
  \<open>stdout\<close> made of lines of the team list and of other lines without \<open>)\<close>, these are the
  names of the team lines in their order. Without the marker no team names are
  attached, and the Google Play classifier never attaches any.
\<close>

theorem itunes_error_carries_team_names:
  "(js_includes (stderr r) FASTLANE_MULTIPLE_TEAMS_FOUND_ERROR \<longrightarrow>
      teamNames (itunesGetError rt req r) = Some (exec_groups IOS_TEAMS_REGEX (stdout r)) \<and>
      packagePaths_of (itunesGetError rt req r) = Some (packagePaths req) \<and>
      teamNames ((itunesGetError rt req r)\<lparr>stderr_of := Some (stderr r), stdout_of := Some (stdout r)\<rparr>)
        = Some (exec_groups IOS_TEAMS_REGEX (stdout r)) \<and>
      packagePaths_of ((itunesGetError rt req r)\<lparr>stderr_of := Some (stderr r), stdout_of := Some (stdout r)\<rparr>)
        = Some (packagePaths req)) \<and>
   (js_includes (stderr r) FASTLANE_MULTIPLE_TEAMS_FOUND_ERROR \<and>
    (\<forall>l\<in>set ls. well_formed_line l) \<and> stdout r = join [CHR 0x0A] (map render_line ls) \<longrightarrow>
      teamNames (itunesGetError rt req r) = Some (team_names_of ls)) \<and>
   (\<not> js_includes (stderr r) FASTLANE_MULTIPLE_TEAMS_FOUND_ERROR \<longrightarrow>
      teamNames (itunesGetError rt req r) = None) \<and>
   teamNames (googleGetError rt req r) = None"
  using exec_groups_team_lines[of ls]
  by (simp add: itunesGetError_def googleGetError_def Let_def Error_def)

theorem itunes_error_carries_team_names_witness:
  "teamNames (itunesGetError example_runtime example_request teams_result) = Some [''Team A'', ''Team B''] \<and>
   packagePaths_of (itunesGetError example_runtime example_request teams_result) = Some [''app.ipa''] \<and>
   teamNames (googleGetError example_runtime example_request teams_result) = None"
proof -
  let ?ls = "[TeamLine ''1'' ''Team A'' ''111'', TeamLine ''2'' ''Team B'' ''222'']"
  have m: "js_includes (stderr teams_result) FASTLANE_MULTIPLE_TEAMS_FOUND_ERROR"
    by (simp add: teams_result_def FASTLANE_MULTIPLE_TEAMS_FOUND_ERROR_def)
  have h: "js_includes (stderr teams_result) FASTLANE_MULTIPLE_TEAMS_FOUND_ERROR \<and>
      (\<forall>l\<in>set ?ls. well_formed_line l) \<and>
      stdout teams_result = join [CHR 0x0A] (map render_line ?ls)"
    using m by (simp add: teams_result_def team_line_def LineTerminator_def)
  note t = itunes_error_carries_team_names [of teams_result example_runtime example_request ?ls]
  from t h have a: "teamNames (itunesGetError example_runtime example_request teams_result)
      = Some (team_names_of ?ls)"
    by blast
  from t m have b: "packagePaths_of (itunesGetError example_runtime example_request teams_result)
      = Some (packagePaths example_request)"
    by blast
  from t have c: "teamNames (googleGetError example_runtime example_request teams_result) = None"
    by blast
  from a b c show ?thesis by (simp add: example_request_def)
qed

end
